theory Spec2Isabelle
  imports Complex_Main
begin

section \<open>Python numerics used by the solver\<close>

text \<open>
  Floating-point numbers of the source are idealised as reals and Python integers as
  \<open>int\<close> or \<open>nat\<close>. A float operation that the source cannot complete on finite
  numbers (a division by zero, \<open>int()\<close> of an infinity or of a NaN) is an error
  branch of the model.
\<close>

datatype error =
    ValueError string
  | NumericError  \<comment> \<open>ZeroDivisionError, or OverflowError / ValueError of \<open>int()\<close> on inf / NaN\<close>
  | NameError     \<comment> \<open>a local variable read before any branch assigned it\<close>
  | IndexError
  | TypeError
  | QiskitError   \<comment> \<open>raised by the circuit library (state preparation, operator dimensions)\<close>

definition py_int :: "real \<Rightarrow> int" where
  \<comment> \<open>\<open>int(x)\<close> of a finite float truncates towards zero.\<close>
  "py_int x = (if 0 \<le> x then \<lfloor>x\<rfloor> else \<lceil>x\<rceil>)"

definition py_round :: "real \<Rightarrow> int" where
  \<comment> \<open>\<open>round(x)\<close> rounds to the nearest integer, a tie to the even neighbour.\<close>
  "py_round x =
     (if frac x = 1 / 2 then (if even \<lfloor>x\<rfloor> then \<lfloor>x\<rfloor> else \<lfloor>x\<rfloor> + 1)
      else \<lfloor>x + 1 / 2\<rfloor>)"

section \<open>The eigenvalue scaler: \<open>_get_delta\<close>\<close>

function bin_digits :: "nat \<Rightarrow> string" where
  "bin_digits k =
     (if k < 2 then [if k = 0 then CHR ''0'' else CHR ''1'']
      else bin_digits (k div 2) @ [if k mod 2 = 0 then CHR ''0'' else CHR ''1''])"
  by pat_completeness auto
termination
  by (relation "measure (\<lambda>k. k)") auto

declare bin_digits.simps [simp del]

definition format_b :: "nat \<Rightarrow> nat \<Rightarrow> string" where
  \<comment> \<open>\<open>format(k, "#0" + str(w) + "b")\<close>: the prefix \<open>0b\<close>, then the binary digits
      filled with zeros on the left up to a total width of at least \<open>w\<close>.\<close>
  "format_b k w = ''0b'' @ replicate (w - 2 - length (bin_digits k)) CHR ''0'' @ bin_digits k"

definition int_of_char :: "char \<Rightarrow> real" where
  "int_of_char c = (if c = CHR ''1'' then 1 else 0)"

fun lamb_min_rep :: "nat \<Rightarrow> string \<Rightarrow> real" where
  \<comment> \<open>The loop \<open>for i, char in enumerate(binstr)\<close>, started at index \<open>i\<close>.\<close>
  "lamb_min_rep i [] = 0"
| "lamb_min_rep i (c # cs) = int_of_char c / 2 ^ (i + 1) + lamb_min_rep (i + 1) cs"

definition lambda_min_tilde :: "nat \<Rightarrow> real \<Rightarrow> real \<Rightarrow> real" where
  "lambda_min_tilde n_l lambda_min lambda_max =
     (let t = \<bar>lambda_min * (2 ^ n_l - 1) / lambda_max\<bar>
      in if \<bar>t - 1\<bar> < 1 / 10 ^ 7 then 1 else t)"

definition binstr :: "nat \<Rightarrow> real \<Rightarrow> real \<Rightarrow> string" where
  "binstr n_l lambda_min lambda_max =
     drop 2 (format_b (nat (py_int (lambda_min_tilde n_l lambda_min lambda_max))) (n_l + 2))"

definition get_delta :: "nat \<Rightarrow> real \<Rightarrow> real \<Rightarrow> error + real" where
  \<comment> \<open>A zero \<open>lambda_max\<close> raises: ZeroDivisionError on Python floats; on NumPy floats the
      quotient is inf or NaN and \<open>int()\<close> rejects it.\<close>
  "get_delta n_l lambda_min lambda_max =
     (if lambda_max = 0 then Inl NumericError
      else Inr (lamb_min_rep 0 (binstr n_l lambda_min lambda_max)))"

section \<open>Operators and statevectors of the linear-algebra back end\<close>

text \<open>
  An \<open>Operator\<close> is a square complex matrix, given by its dimension and its entries
  (entries outside the dimension are never read). \<open>a.tensor(b)\<close> is the Kronecker
  product \<open>a \<otimes> b\<close>: \<open>b\<close> acts on the low-order qubits.
\<close>

record operator =
  op_dim :: nat
  op_entry :: "nat \<Rightarrow> nat \<Rightarrow> complex"

definition from_label_I :: operator where
  "from_label_I = \<lparr>op_dim = 2, op_entry = (\<lambda>i j. if i = j then 1 else 0)\<rparr>"

definition from_label_Z :: operator where
  "from_label_Z = \<lparr>op_dim = 2, op_entry = (\<lambda>i j. if i = j then (if i = 0 then 1 else - 1) else 0)\<rparr>"

definition op_add :: "operator \<Rightarrow> operator \<Rightarrow> operator" where
  "op_add a b = \<lparr>op_dim = op_dim a, op_entry = (\<lambda>i j. op_entry a i j + op_entry b i j)\<rparr>"

definition op_sub :: "operator \<Rightarrow> operator \<Rightarrow> operator" where
  "op_sub a b = \<lparr>op_dim = op_dim a, op_entry = (\<lambda>i j. op_entry a i j - op_entry b i j)\<rparr>"

definition op_div :: "operator \<Rightarrow> complex \<Rightarrow> operator" where
  "op_div a c = \<lparr>op_dim = op_dim a, op_entry = (\<lambda>i j. op_entry a i j / c)\<rparr>"

definition tensor :: "operator \<Rightarrow> operator \<Rightarrow> operator" where
  "tensor a b =
     \<lparr>op_dim = op_dim a * op_dim b,
      op_entry = (\<lambda>i j. op_entry a (i div op_dim b) (j div op_dim b)
                        * op_entry b (i mod op_dim b) (j mod op_dim b))\<rparr>"

definition op_matmul :: "operator \<Rightarrow> operator \<Rightarrow> operator" where
  "op_matmul a b =
     \<lparr>op_dim = op_dim a, op_entry = (\<lambda>i j. \<Sum>k<op_dim a. op_entry a i k * op_entry b k j)\<rparr>"

primrec op_power :: "operator \<Rightarrow> nat \<Rightarrow> operator" where
  \<comment> \<open>\<open>Operator.power(n)\<close> is the \<open>n\<close>-fold matrix product, not a tensor power.\<close>
  "op_power a 0 = \<lparr>op_dim = op_dim a, op_entry = (\<lambda>i j. if i = j then 1 else 0)\<rparr>"
| "op_power a (Suc n) = op_matmul a (op_power a n)"

definition zero_op :: operator where
  "zero_op = op_div (op_add from_label_I from_label_Z) 2"

definition one_op :: operator where
  "one_op = op_div (op_sub from_label_I from_label_Z) 2"

record statevector =
  sv_num_qubits :: nat   \<comment> \<open>\<open>len(statev.dims())\<close>\<close>
  amplitude :: "nat \<Rightarrow> complex"

definition expectation_value :: "statevector \<Rightarrow> operator \<Rightarrow> error + complex" where
  "expectation_value sv ob =
     (if op_dim ob \<noteq> 2 ^ sv_num_qubits sv then Inl QiskitError
      else Inr (\<Sum>i<op_dim ob. \<Sum>j<op_dim ob.
                  cnj (amplitude sv i) * op_entry ob i j * amplitude sv j))"

section \<open>Circuits\<close>

text \<open>
  Circuits supplied by the caller and the library circuits the solver instantiates are
  opaque: the solver only reads their declared attributes and appends them. A matrix
  circuit's optional methods \<open>condition_bounds\<close> and \<open>eigs_bounds\<close> are \<open>None\<close>
  both when the attribute is missing and when the call returns \<open>None\<close>; its
  \<open>tolerance\<close> is \<open>None\<close> when it has no such attribute.
\<close>

record user_circuit =
  uc_name :: string
  uc_num_qubits :: nat

record matrix_circuit =
  mc_name :: string
  mc_num_ancillas :: nat
  tolerance :: "real option"
  evolution_time :: "real option"
  condition_bounds :: "(real \<times> real) option"
  eigs_bounds :: "(real \<times> real) option"

datatype register = QuantumRegister string nat | AncillaRegister string nat

fun reg_size :: "register \<Rightarrow> nat" where
  "reg_size (QuantumRegister _ n) = n"
| "reg_size (AncillaRegister _ n) = n"

fun is_ancilla :: "register \<Rightarrow> bool" where
  "is_ancilla (QuantumRegister _ _) = False"
| "is_ancilla (AncillaRegister _ _) = True"

datatype qubit = Qubit register nat

definition bits :: "register \<Rightarrow> qubit list" where
  \<comment> \<open>the slice \<open>reg[:]\<close>\<close>
  "bits r = map (Qubit r) [0..<reg_size r]"

datatype gate =
    UserGate user_circuit
  | Initialize "complex list"
  | PhaseEstimation nat matrix_circuit
  | Inverse gate
  | ExactReciprocal nat real bool
  | PiecewiseChebyshev "real \<Rightarrow> real" int "int list" nat
  | Measure
  | SubCircuit "register list" "(gate \<times> qubit list) list"

record qcircuit =
  qregs :: "register list"
  cregs :: "register list"
  data :: "(gate \<times> qubit list) list"

definition num_qubits :: "qcircuit \<Rightarrow> nat" where
  "num_qubits qc = sum_list (map reg_size (qregs qc))"

definition num_ancillas :: "qcircuit \<Rightarrow> nat" where
  "num_ancillas qc = sum_list (map reg_size (filter is_ancilla (qregs qc)))"

definition to_gate :: "qcircuit \<Rightarrow> gate" where
  "to_gate qc = SubCircuit (qregs qc) (data qc)"

fun is_measure :: "gate \<Rightarrow> bool" where
  "is_measure Measure = True"
| "is_measure _ = False"

definition has_measurement :: "qcircuit \<Rightarrow> bool" where
  "has_measurement qc = (cregs qc \<noteq> [] \<or> (\<exists>g \<in> set (data qc). is_measure (fst g)))"

record ndarray =
  nrows :: nat   \<comment> \<open>\<open>shape[0]\<close>\<close>
  ncols :: nat   \<comment> \<open>\<open>shape[1]\<close>\<close>
  element :: "nat \<Rightarrow> nat \<Rightarrow> complex"

definition conj_T :: "ndarray \<Rightarrow> ndarray" where
  "conj_T m = \<lparr>nrows = ncols m, ncols = nrows m, element = (\<lambda>i j. cnj (element m j i))\<rparr>"

definition allclose :: "ndarray \<Rightarrow> ndarray \<Rightarrow> bool" where
  \<comment> \<open>\<open>np.allclose\<close> with its default \<open>rtol = 1e-5\<close>, \<open>atol = 1e-8\<close>\<close>
  "allclose a b =
     (\<forall>i \<in> {..<nrows a}. \<forall>j \<in> {..<ncols a}.
        cmod (element a i j - element b i j) \<le> 1 / 10 ^ 8 + 1 / 10 ^ 5 * cmod (element b i j))"

text \<open>
  What the solver calls but this repository's \<open>hhl.py\<close> does not define: the matrix
  circuit built from an array, the ancilla count of the Chebyshev circuit, the
  statevector simulator, and whether the state-preparation instruction accepts an
  amplitude vector on a number of qubits.
\<close>

record externals =
  NumPyMatrix :: "ndarray \<Rightarrow> real \<Rightarrow> matrix_circuit"
  chebyshev_num_ancillas :: "int \<Rightarrow> int list \<Rightarrow> nat \<Rightarrow> nat"
  from_instruction :: "qcircuit \<Rightarrow> statevector"
  initialize_accepts :: "complex list \<Rightarrow> nat \<Rightarrow> bool"

section \<open>The solver\<close>

text \<open>
  The solver object is a record that \<open>construct_circuit\<close> and \<open>solve\<close> take and return;
  what they print is returned as a list of messages, in order. An exception ends the run
  with the solver and the messages as they were when it was raised.
\<close>

datatype 'a one_or_list = Single 'a | Multiple "'a list"

record hhl =
  epsilon :: real
  epsilon_r :: real
  epsilon_s :: real
  epsilon_a :: real
  scaling :: real
  expectation :: "(complex list \<Rightarrow> error + complex list) option"
  exact_reciprocal :: bool

definition HHL_init :: "real \<Rightarrow> (complex list \<Rightarrow> error + complex list) option \<Rightarrow> hhl" where
  "HHL_init eps expect =
     \<lparr>epsilon = eps, epsilon_r = eps / 3, epsilon_s = eps / 3, epsilon_a = eps / 6,
      scaling = 1, expectation = expect, exact_reciprocal = True\<rparr>"

datatype message = SmallEigenvalueWarning real real | ScalingNotice

datatype vector_input = VCircuit user_circuit | VArray "complex list" | VOther

datatype matrix_input = MCircuit matrix_circuit | MArray ndarray | MOther

subsection \<open>\<open>construct_circuit\<close>, stage by stage\<close>

definition linalg_norm :: "complex list \<Rightarrow> real" where
  "linalg_norm v = sqrt (\<Sum>z\<leftarrow>v. (cmod z)\<^sup>2)"

definition vector_stage :: "externals \<Rightarrow> vector_input \<Rightarrow> error + (nat \<times> gate) option" where
  \<comment> \<open>lines 345-356; \<open>None\<close>: neither branch ran, \<open>nb\<close> and \<open>vector_circuit\<close> are unbound\<close>
  "vector_stage ext vector =
     (case vector of
        VCircuit c \<Rightarrow> Inr (Some (uc_num_qubits c, UserGate c))
      | VArray v \<Rightarrow>
          if length v = 0 then Inl NumericError
          else let nb = nat (py_int (log 2 (real (length v))));
                   params = map (\<lambda>z. z / complex_of_real (linalg_norm v)) v;
                   q = QuantumRegister ''q'' nb
               in if linalg_norm v = 0 \<or> \<not> initialize_accepts ext params nb then Inl QiskitError
                  else Inr (Some (nb, SubCircuit [q] [(Initialize params, bits q)]))
      | VOther \<Rightarrow> Inr None)"

definition matrix_stage ::
  "externals \<Rightarrow> matrix_input \<Rightarrow> (nat \<times> gate) option \<Rightarrow> error + matrix_circuit" where
  \<comment> \<open>lines 362-384\<close>
  "matrix_stage ext matrix vec =
     (case matrix of
        MCircuit c \<Rightarrow> Inr c
      | MArray m \<Rightarrow>
          if nrows m \<noteq> ncols m then Inl (ValueError ''Input matrix must be square!'')
          else if nrows m = 0 \<or> frac (log 2 (real (nrows m))) \<noteq> 0
            then Inl (ValueError ''Input matrix dimension must be 2^n!'')
          else if \<not> allclose m (conj_T m) then Inl (ValueError ''Input matrix must be hermitian!'')
          else (case vec of
                  None \<Rightarrow> Inl NameError
                | Some (nb, vector_circuit) \<Rightarrow>
                    if nrows m \<noteq> 2 ^ nb
                    then Inl (ValueError ''Input vector dimension does not match input matrix dimension!'')
                    else Inr (NumPyMatrix ext m (2 * pi)))
      | MOther \<Rightarrow> Inl (ValueError ''Invalid type for matrix''))"

definition set_tolerance :: "hhl \<Rightarrow> matrix_circuit \<Rightarrow> matrix_circuit" where
  "set_tolerance s mc =
     (case tolerance mc of None \<Rightarrow> mc | Some _ \<Rightarrow> mc\<lparr>tolerance := Some (epsilon_a s)\<rparr>)"

definition kappa_of :: "matrix_circuit \<Rightarrow> real" where
  "kappa_of mc = (case condition_bounds mc of Some (lo, hi) \<Rightarrow> hi | None \<Rightarrow> 1)"

definition register_nl :: "nat \<Rightarrow> real \<Rightarrow> bool \<Rightarrow> error + nat" where
  \<comment> \<open>line 401; \<open>log2\<close> of a non-positive number is \<open>-inf\<close> or NaN, which \<open>int()\<close> rejects\<close>
  "register_nl nb kappa neg_vals =
     (if kappa + 1 \<le> 0 then Inl NumericError
      else Inr (nat (max (int nb + 1) \<lceil>log 2 (kappa + 1)\<rceil> + of_bool neg_vals)))"

definition lambda_min_guard :: "real \<Rightarrow> real \<Rightarrow> real \<times> message list" where
  \<comment> \<open>lines 410-416\<close>
  "lambda_min_guard lambda_min lambda_max =
     (if \<bar>lambda_min\<bar> < 1 / 10 ^ 10
      then (let lambda_min_safe = max (1 / 10 ^ 10) (lambda_max / 1000)
            in (lambda_min_safe, [SmallEigenvalueWarning lambda_min lambda_min_safe]))
      else (lambda_min, []))"

definition eig_stage ::
  "hhl \<Rightarrow> matrix_circuit \<Rightarrow> nat \<Rightarrow> bool
     \<Rightarrow> (error + real \<times> matrix_circuit) \<times> hhl \<times> message list" where
  \<comment> \<open>lines 404-429: the result is \<open>delta\<close> and the matrix circuit with its evolution time;
      after the guard \<open>lambda_min\<close> is never zero, so the division by it cannot fail\<close>
  "eig_stage s mc nl neg_vals =
     (case eigs_bounds mc of
        Some (lambda_min0, lambda_max) \<Rightarrow>
          (case lambda_min_guard lambda_min0 lambda_max of
             (lambda_min, out) \<Rightarrow>
               (case get_delta (nl - of_bool neg_vals) lambda_min lambda_max of
                  Inl e \<Rightarrow> (Inl e, s, out)
                | Inr delta \<Rightarrow>
                    (Inr (delta,
                          mc\<lparr>evolution_time :=
                               Some (2 * pi * delta / lambda_min / 2 ^ (of_bool neg_vals :: nat))\<rparr>),
                     s\<lparr>scaling := lambda_min\<rparr>, out)))
      | None \<Rightarrow> (Inr (1 / 2 ^ nl, mc), s, [ScalingNotice]))"

fun breakpoints_loop :: "int \<Rightarrow> int \<Rightarrow> int \<Rightarrow> nat list \<Rightarrow> int list" where
  \<comment> \<open>the loop of lines 462-468 over the remaining indices\<close>
  "breakpoints_loop a num_values num_intervals [] = []"
| "breakpoints_loop a num_values num_intervals (i # rest) =
     (a * 5 ^ i) # (if int i = num_intervals - 1 then [num_values - 1] else [])
       @ breakpoints_loop a num_values num_intervals rest"

definition chebyshev_a :: "nat \<Rightarrow> int" where
  "chebyshev_a nl = py_round (real (2 ^ nl) powr (2 / 3))"

definition chebyshev_r :: "real \<Rightarrow> int \<Rightarrow> real" where
  "chebyshev_r constant a =
     2 * constant / real_of_int a + sqrt \<bar>1 - (2 * constant / real_of_int a)\<^sup>2\<bar>"

definition degree_bound :: "hhl \<Rightarrow> real \<Rightarrow> real \<Rightarrow> real" where
  \<comment> \<open>the argument of \<open>np.log\<close> in lines 446-455\<close>
  "degree_bound s kappa r =
     1 + (1623 / 100 * sqrt ((ln r)\<^sup>2 + (pi / 2)\<^sup>2) * kappa * (2 * kappa - epsilon_r s))
           / epsilon_r s"

definition chebyshev_degree :: "hhl \<Rightarrow> nat \<Rightarrow> real \<Rightarrow> real \<Rightarrow> int" where
  "chebyshev_degree s nb kappa r = min (int nb) (py_int (ln (degree_bound s kappa r)))"

definition chebyshev_num_intervals :: "nat \<Rightarrow> int \<Rightarrow> int" where
  "chebyshev_num_intervals nl a = \<lceil>ln (real_of_int (2 ^ nl - 1) / real_of_int a) / ln 5\<rceil>"

definition chebyshev_breakpoints :: "nat \<Rightarrow> int \<Rightarrow> int list" where
  "chebyshev_breakpoints nl a =
     (let num_intervals = chebyshev_num_intervals nl a
      in breakpoints_loop a (2 ^ nl) num_intervals [0..<nat num_intervals])"

definition reciprocal_stage ::
  "externals \<Rightarrow> hhl \<Rightarrow> matrix_circuit \<Rightarrow> nat \<Rightarrow> nat \<Rightarrow> real \<Rightarrow> real \<Rightarrow> bool
     \<Rightarrow> error + gate \<times> nat \<times> nat" where
  \<comment> \<open>lines 431-473: the reciprocal circuit, its own ancilla count and \<open>na\<close>\<close>
  "reciprocal_stage ext s mc nb nl delta kappa neg_vals =
     (if exact_reciprocal s
      then Inr (ExactReciprocal nl delta neg_vals, 0, mc_num_ancillas mc)
      else let a = chebyshev_a nl;
               r = chebyshev_r delta a
           in if a = 0 \<or> r \<le> 0 \<or> epsilon_r s = 0 \<or> degree_bound s kappa r \<le> 0 \<or> nl = 0
              then Inl NumericError
              else let degree = chebyshev_degree s nb kappa r;
                       breakpoints = chebyshev_breakpoints nl a;
                       anc = chebyshev_num_ancillas ext degree breakpoints nl
                   in Inr (PiecewiseChebyshev (\<lambda>x. arcsin (delta / x)) degree breakpoints nl,
                           anc, max (mc_num_ancillas mc) anc))"

definition assemble ::
  "hhl \<Rightarrow> gate \<Rightarrow> matrix_circuit \<Rightarrow> nat \<Rightarrow> nat \<Rightarrow> gate \<times> nat \<times> nat \<Rightarrow> error + qcircuit" where
  \<comment> \<open>lines 359 and 475-513; \<open>qa\<close> is bound only when \<open>na > 0\<close>\<close>
  "assemble s vector_circuit mc nb nl recip =
     (case recip of (reciprocal_circuit, recip_ancillas, na) \<Rightarrow>
        let nf = 1;
            qb = QuantumRegister ''qb'' nb;
            ql = QuantumRegister ''ql'' nl;
            qa = AncillaRegister ''qa'' na;
            qf = QuantumRegister ''qf'' nf;
            regs = (if na > 0 then [qb, ql, qa, qf] else [qb, ql, qf]);
            pe_circuit = PhaseEstimation nl mc;
            pe_qubits = (if na > 0 then bits ql @ bits qb @ take (mc_num_ancillas mc) (bits qa)
                         else bits ql @ bits qb)
        in if \<not> exact_reciprocal s \<and> na = 0 then Inl NameError
           else Inr \<lparr>qregs = regs, cregs = [],
                    data = [(vector_circuit, bits qb),
                            (pe_circuit, pe_qubits),
                            (if exact_reciprocal s
                             then (reciprocal_circuit, rev (bits ql) @ [Qubit qf 0])
                             else (reciprocal_circuit,
                                   bits ql @ [Qubit qf 0] @ take recip_ancillas (bits qa))),
                            (Inverse pe_circuit, pe_qubits)]\<rparr>)"

definition construct_circuit ::
  "externals \<Rightarrow> hhl \<Rightarrow> matrix_input \<Rightarrow> vector_input \<Rightarrow> bool
     \<Rightarrow> (error + qcircuit) \<times> hhl \<times> message list" where
  "construct_circuit ext s matrix vector neg_vals =
     (case vector_stage ext vector of
        Inl e \<Rightarrow> (Inl e, s, [])
      | Inr vec \<Rightarrow>
          (case matrix_stage ext matrix vec of
             Inl e \<Rightarrow> (Inl e, s, [])
           | Inr matrix_circuit \<Rightarrow>
               let mc = set_tolerance s matrix_circuit;
                   kappa = kappa_of mc
               in (case vec of
                     None \<Rightarrow> (Inl NameError, s, [])
                   | Some (nb, vector_circuit) \<Rightarrow>
                       (case register_nl nb kappa neg_vals of
                          Inl e \<Rightarrow> (Inl e, s, [])
                        | Inr nl \<Rightarrow>
                            (case eig_stage s mc nl neg_vals of
                               (Inl e, s', out) \<Rightarrow> (Inl e, s', out)
                             | (Inr (delta, mc'), s', out) \<Rightarrow>
                                 (case reciprocal_stage ext s' mc' nb nl delta kappa neg_vals of
                                    Inl e \<Rightarrow> (Inl e, s', out)
                                  | Inr recip \<Rightarrow>
                                      (assemble s' vector_circuit mc' nb nl recip, s', out)))))))"

subsection \<open>\<open>_calculate_norm\<close>\<close>

datatype pyfloat = Finite real | NonFinite  \<comment> \<open>\<open>NonFinite\<close>: the inf or NaN of a float division by zero\<close>

definition tensor_all :: "operator list \<Rightarrow> error + operator" where
  \<comment> \<open>\<open>acc = ops[0]; for op in ops[1:]: acc = acc.tensor(op)\<close>\<close>
  "tensor_all ops = (case ops of [] \<Rightarrow> Inl IndexError | x # rest \<Rightarrow> Inr (foldl tensor x rest))"

definition norm_op_list :: "nat \<Rightarrow> operator list" where
  "norm_op_list n = map (\<lambda>i. if i = 0 then one_op else zero_op) [0..<n]"

definition norm_observable :: "externals \<Rightarrow> qcircuit \<Rightarrow> error + operator" where
  "norm_observable ext qc = tensor_all (norm_op_list (sv_num_qubits (from_instruction ext qc)))"

definition norm_2 :: "externals \<Rightarrow> qcircuit \<Rightarrow> error + complex" where
  "norm_2 ext qc =
     (case norm_observable ext qc of
        Inl e \<Rightarrow> Inl e
      | Inr ob \<Rightarrow> expectation_value (from_instruction ext qc) ob)"

definition calculate_norm :: "externals \<Rightarrow> hhl \<Rightarrow> qcircuit \<Rightarrow> error + pyfloat" where
  "calculate_norm ext s qc =
     (case norm_2 ext qc of
        Inl e \<Rightarrow> Inl e
      | Inr n2 \<Rightarrow>
          Inr (if scaling s = 0 then NonFinite
               else Finite (Re (csqrt n2 / complex_of_real (scaling s)))))"

subsection \<open>\<open>_calculate_observable\<close>\<close>

text \<open>
  The expectation converter of the solver is a function that may fail; the sampler
  attribute is \<open>None\<close> in every solver this class creates, so its two branches never run.
  Arity checks that the circuit library makes when a circuit is appended are not part of the
  model.
\<close>

type_synonym post_processing = "complex one_or_list \<Rightarrow> nat \<Rightarrow> real \<Rightarrow> real"

record ls_observable =
  lso_observable :: "nat \<Rightarrow> operator one_or_list"
  lso_observable_circuit :: "nat \<Rightarrow> user_circuit one_or_list"
  lso_post_processing :: post_processing

fun expectations_loop ::
  "externals \<Rightarrow> qcircuit \<Rightarrow> nat \<Rightarrow> nat \<Rightarrow> (user_circuit option \<times> operator) list
     \<Rightarrow> error + complex list" where
  "expectations_loop ext solution nb k [] = Inr []"
| "expectations_loop ext solution nb k ((circ, obs) # rest) =
     (case circ of
        None \<Rightarrow> Inl TypeError
      | Some c \<Rightarrow>
          let q = QuantumRegister ''q'' (num_qubits solution);
              circuit = \<lparr>qregs = [q], cregs = [],
                         data = [(to_gate solution, bits q), (UserGate c, take nb (bits q))]\<rparr>
          in (case tensor_all (replicate k zero_op) of
                Inl e \<Rightarrow> Inl e
              | Inr combined_zero_op \<Rightarrow>
                  (case expectation_value (from_instruction ext circuit)
                          (tensor (tensor one_op combined_zero_op) obs) of
                     Inl e \<Rightarrow> Inl e
                   | Inr x \<Rightarrow>
                       (case expectations_loop ext solution nb k rest of
                          Inl e \<Rightarrow> Inl e
                        | Inr xs \<Rightarrow> Inr (x # xs)))))"

definition pair_up ::
  "user_circuit one_or_list option \<Rightarrow> operator one_or_list
     \<Rightarrow> error + bool \<times> (user_circuit option \<times> operator) list" where
  \<comment> \<open>lines 271-278: \<open>is_list\<close> and the pairs the loop runs over\<close>
  "pair_up observable_circuit observable =
     (case observable_circuit of
        Some (Multiple cs) \<Rightarrow>
          (case observable of
             Multiple obs \<Rightarrow> Inr (True, zip (map Some cs) obs)
           | Single _ \<Rightarrow> Inl TypeError)
      | Some (Single c) \<Rightarrow>
          (case observable of
             Single ob \<Rightarrow> Inr (False, [(Some c, ob)])
           | Multiple _ \<Rightarrow> Inl TypeError)
      | None \<Rightarrow>
          (case observable of
             Single ob \<Rightarrow> Inr (False, [(None, ob)])
           | Multiple _ \<Rightarrow> Inl TypeError))"

definition calculate_observable ::
  "externals \<Rightarrow> hhl \<Rightarrow> qcircuit \<Rightarrow> ls_observable option \<Rightarrow> user_circuit one_or_list option
     \<Rightarrow> post_processing option \<Rightarrow> error + real \<times> complex one_or_list" where
  "calculate_observable ext s solution ls_obs observable_circuit post_processing =
     (case qregs solution of
        r0 # r1 # _ \<Rightarrow>
          let nb = reg_size r0;
              nl = reg_size r1;
              na = num_ancillas solution;
              circ = (case ls_obs of Some l \<Rightarrow> Some (lso_observable_circuit l nb)
                      | None \<Rightarrow> observable_circuit);
              post = (case ls_obs of Some l \<Rightarrow> Some (lso_post_processing l)
                      | None \<Rightarrow> post_processing);
              observable = (case ls_obs of Some l \<Rightarrow> lso_observable l nb
                            | None \<Rightarrow> Single (op_power from_label_I nb))
          in (case pair_up circ observable of
                Inl e \<Rightarrow> Inl e
              | Inr (is_list, pairs) \<Rightarrow>
                  (case expectations_loop ext solution nb (nl + na) pairs of
                     Inl e \<Rightarrow> Inl e
                   | Inr expectations \<Rightarrow>
                       (case (case expectation s of None \<Rightarrow> Inr expectations
                              | Some convert \<Rightarrow> convert expectations) of
                          Inl e \<Rightarrow> Inl e
                        | Inr converted \<Rightarrow>
                            (case (if is_list then Inr (Multiple converted)
                                   else (case converted of [] \<Rightarrow> Inl IndexError
                                         | x # _ \<Rightarrow> Inr (Single x))) of
                               Inl e \<Rightarrow> Inl e
                             | Inr expectation_results \<Rightarrow>
                                 (case post of
                                    None \<Rightarrow> Inl TypeError
                                  | Some f \<Rightarrow>
                                      Inr (f expectation_results nb (scaling s),
                                           expectation_results))))))
      | _ \<Rightarrow> Inl IndexError)"

subsection \<open>\<open>solve\<close>\<close>

datatype observable_request =
    NoObservable
  | OneObservable ls_observable
  | ObservableList "ls_observable list"

record solver_result =
  state :: qcircuit
  euclidean_norm :: pyfloat
  observable :: "real one_or_list option"
  circuit_results :: "complex one_or_list one_or_list option"

fun observables_loop ::
  "externals \<Rightarrow> hhl \<Rightarrow> qcircuit \<Rightarrow> user_circuit one_or_list option \<Rightarrow> post_processing option
     \<Rightarrow> ls_observable list \<Rightarrow> error + (real \<times> complex one_or_list) list" where
  "observables_loop ext s solution oc pp [] = Inr []"
| "observables_loop ext s solution oc pp (obs # rest) =
     (case calculate_observable ext s solution (Some obs) oc pp of
        Inl e \<Rightarrow> Inl e
      | Inr r \<Rightarrow>
          (case observables_loop ext s solution oc pp rest of
             Inl e \<Rightarrow> Inl e
           | Inr rs \<Rightarrow> Inr (r # rs)))"

definition solve ::
  "externals \<Rightarrow> hhl \<Rightarrow> matrix_input \<Rightarrow> vector_input \<Rightarrow> observable_request
     \<Rightarrow> user_circuit one_or_list option \<Rightarrow> post_processing option
     \<Rightarrow> (error + solver_result) \<times> hhl \<times> message list" where
  "solve ext s matrix vector obs_request observable_circuit post_processing =
     (if obs_request \<noteq> NoObservable \<and> (observable_circuit \<noteq> None \<or> post_processing \<noteq> None)
      then (Inl (ValueError
              ''If observable is passed, observable_circuit and post_processing cannot be set.''),
            s, [])
      else
        (case construct_circuit ext s matrix vector True of
           (Inl e, s', out) \<Rightarrow> (Inl e, s', out)
         | (Inr qc, s', out) \<Rightarrow>
             (case calculate_norm ext s' qc of
                Inl e \<Rightarrow> (Inl e, s', out)
              | Inr nrm \<Rightarrow>
                  let solution = \<lparr>state = qc, euclidean_norm = nrm, observable = None,
                                  circuit_results = None\<rparr>
                  in (case obs_request of
                        ObservableList obs \<Rightarrow>
                          (case observables_loop ext s' qc observable_circuit post_processing obs of
                             Inl e \<Rightarrow> (Inl e, s', out)
                           | Inr rs \<Rightarrow>
                               (Inr (solution\<lparr>observable := Some (Multiple (map fst rs)),
                                              circuit_results := Some (Multiple (map snd rs))\<rparr>),
                                s', out))
                      | OneObservable ob \<Rightarrow>
                          (case calculate_observable ext s' qc (Some ob) observable_circuit
                                  post_processing of
                             Inl e \<Rightarrow> (Inl e, s', out)
                           | Inr (v, raw) \<Rightarrow>
                               (Inr (solution\<lparr>observable := Some (Single v),
                                              circuit_results := Some (Single raw)\<rparr>),
                                s', out))
                      | NoObservable \<Rightarrow>
                          if observable_circuit \<noteq> None
                          then (case calculate_observable ext s' qc None observable_circuit
                                       post_processing of
                                  Inl e \<Rightarrow> (Inl e, s', out)
                                | Inr (v, raw) \<Rightarrow>
                                    (Inr (solution\<lparr>observable := Some (Single v),
                                                   circuit_results := Some (Single raw)\<rparr>),
                                     s', out))
                          else (Inr solution, s', out)))))"

section \<open>The specification's reading of the fixed-point encoding\<close>

text \<open>
  The specification describes \<open>computeDelta\<close> in words: take the integer part of
  \<open>|lambda_min (2^n_l - 1) / lambda_max|\<close> (clamped to 1 when within \<open>1e-7\<close> of 1), render it
  as an \<open>n_l\<close>-bit binary string, and sum bit \<open>i\<close> times \<open>2^-(i+1)\<close>. These definitions follow
  that wording; an \<open>n\<close>-bit string has exactly \<open>n\<close> characters, most significant bit first.
\<close>

definition nbit_string :: "nat \<Rightarrow> nat \<Rightarrow> string" where
  "nbit_string n k =
     map (\<lambda>i. if (k div 2 ^ (n - 1 - i)) mod 2 = 1 then CHR ''1'' else CHR ''0'') [0..<n]"

definition fixed_point :: "string \<Rightarrow> real" where
  "fixed_point bs = (\<Sum>i<length bs. int_of_char (bs ! i) / 2 ^ (i + 1))"

definition spec_delta :: "nat \<Rightarrow> real \<Rightarrow> real \<Rightarrow> real" where
  "spec_delta n_l lambda_min lambda_max =
     (let q = \<bar>lambda_min * (2 ^ n_l - 1) / lambda_max\<bar>;
          q' = (if \<bar>q - 1\<bar> < 1 / 10 ^ 7 then 1 else q)
      in fixed_point (nbit_string n_l (nat \<lfloor>q'\<rfloor>)))"

section \<open>Sample inputs\<close>

text \<open>
  Concrete inputs on which the model is run. The sample simulator returns, for every circuit,
  the basis state in which only the most significant qubit is set.
\<close>

definition sample_externals :: externals where
  "sample_externals =
     \<lparr>NumPyMatrix = (\<lambda>m t. \<lparr>mc_name = ''NumPyMatrix'', mc_num_ancillas = 0, tolerance = Some 0,
                               evolution_time = Some t, condition_bounds = None,
                               eigs_bounds = None\<rparr>),
      chebyshev_num_ancillas = (\<lambda>degree breakpoints n. 1),
      from_instruction = (\<lambda>qc. \<lparr>sv_num_qubits = num_qubits qc,
                                   amplitude = (\<lambda>i. if i = 2 ^ (num_qubits qc - 1) then 1 else 0)\<rparr>),
      initialize_accepts = (\<lambda>params n. length params = 2 ^ n)\<rparr>"

definition sample_vector :: vector_input where
  "sample_vector = VCircuit \<lparr>uc_name = ''b'', uc_num_qubits = 1\<rparr>"

definition sample_matrix :: "(real \<times> real) option \<Rightarrow> (real \<times> real) option \<Rightarrow> matrix_circuit" where
  "sample_matrix cond eigs =
     \<lparr>mc_name = ''A'', mc_num_ancillas = 0, tolerance = Some 0, evolution_time = None,
      condition_bounds = cond, eigs_bounds = eigs\<rparr>"

definition sample_observable :: ls_observable where
  "sample_observable =
     \<lparr>lso_observable = (\<lambda>nb. Single (op_power from_label_I nb)),
      lso_observable_circuit = (\<lambda>nb. Single \<lparr>uc_name = ''observable'', uc_num_qubits = nb\<rparr>),
      lso_post_processing = (\<lambda>r nb scaling. case r of Single x \<Rightarrow> Re x | Multiple xs \<Rightarrow> 0)\<rparr>"

definition sample_post_processing :: post_processing where
  "sample_post_processing = (\<lambda>r nb scaling. case r of Single x \<Rightarrow> Re x | Multiple xs \<Rightarrow> 0)"

definition sample_array :: ndarray where
  "sample_array = \<lparr>nrows = 2, ncols = 2, element = (\<lambda>i j. if i = 0 \<and> j = 1 then 1 else 0)\<rparr>"

definition sample_chebyshev_solver :: hhl where
  "sample_chebyshev_solver = (HHL_init (1 / 100) None)\<lparr>exact_reciprocal := False\<rparr>"

definition sample_circuit :: qcircuit where
  "sample_circuit =
     projr (fst (construct_circuit sample_externals (HHL_init (1 / 100) None)
                   (MCircuit (sample_matrix None None)) sample_vector True))"

section \<open>The specification's reading of the norm estimator\<close>

text \<open>
  The specification defines the projector "one" as \<open>(I + Z)/2\<close> and "zero" as \<open>(I - Z)/2\<close>,
  puts "one" on the success qubit and "zero" on every remaining qubit, and returns
  \<open>sqrt(Re expectation) / scaling\<close>. These definitions follow that wording.
\<close>

definition spec_one :: operator where
  "spec_one = op_div (op_add from_label_I from_label_Z) 2"

definition spec_zero :: operator where
  "spec_zero = op_div (op_sub from_label_I from_label_Z) 2"

definition spec_calculate_norm :: "externals \<Rightarrow> hhl \<Rightarrow> qcircuit \<Rightarrow> error + real" where
  "spec_calculate_norm ext s qc =
     (let statev = from_instruction ext qc
      in case tensor_all (map (\<lambda>i. if i = 0 then spec_one else spec_zero)
                            [0..<sv_num_qubits statev]) of
           Inl e \<Rightarrow> Inl e
         | Inr ob \<Rightarrow>
             (case expectation_value statev ob of
                Inl e \<Rightarrow> Inl e
              | Inr x \<Rightarrow> Inr (sqrt (Re x) / scaling s)))"

section \<open>Auxiliary notions\<close>

text \<open>A diagonal operator all of whose diagonal entries are 0 or 1.\<close>

definition diag_projector :: "operator \<Rightarrow> bool" where
  "diag_projector ob \<longleftrightarrow>
     (\<forall>i \<in> {..<op_dim ob}. \<forall>j \<in> {..<op_dim ob}.
        (i \<noteq> j \<longrightarrow> op_entry ob i j = 0) \<and> (op_entry ob i i = 0 \<or> op_entry ob i i = 1))"

section \<open>Properties of \<open>_get_delta\<close>\<close>

lemma lamb_min_rep_sum:
  "lamb_min_rep i bs = (\<Sum>j<length bs. int_of_char (bs ! j) / 2 ^ (i + j + 1))"
proof (induction bs arbitrary: i)
  case Nil
  then show ?case by simp
next
  case (Cons c cs)
  show ?case by (simp add: Cons.IH sum.lessThan_Suc_shift del: sum.lessThan_Suc)
qed

lemma lamb_min_rep_fixed_point: "lamb_min_rep 0 bs = fixed_point bs"
  by (simp add: lamb_min_rep_sum fixed_point_def)

lemma lamb_min_rep_nonneg: "0 \<le> lamb_min_rep i bs"
  by (induction bs arbitrary: i) (simp_all add: int_of_char_def)

lemma lamb_min_rep_upper: "lamb_min_rep i bs \<le> 1 / 2 ^ i - 1 / 2 ^ (i + length bs)"
proof (induction bs arbitrary: i)
  case Nil
  then show ?case by simp
next
  case (Cons c cs)
  have "int_of_char c / 2 ^ (i + 1) \<le> 1 / 2 ^ (i + 1)"
    by (simp add: int_of_char_def)
  moreover have "lamb_min_rep (i + 1) cs \<le> 1 / 2 ^ (i + 1) - 1 / 2 ^ (i + 1 + length cs)"
    by (rule Cons.IH)
  moreover have "(1::real) / 2 ^ (i + 1) + 1 / 2 ^ (i + 1) = 1 / 2 ^ i" by simp
  ultimately have "int_of_char c / 2 ^ (i + 1) + lamb_min_rep (i + 1) cs
      \<le> 1 / 2 ^ i - 1 / 2 ^ (i + 1 + length cs)" by linarith
  then show ?case by simp
qed

lemma lamb_min_rep_less_one: "lamb_min_rep 0 bs < 1"
proof -
  have "lamb_min_rep 0 bs \<le> 1 - 1 / 2 ^ length bs"
    using lamb_min_rep_upper [of 0 bs] by simp
  moreover have "(0::real) < 1 / 2 ^ length bs" by simp
  ultimately show ?thesis by linarith
qed

lemma nbit_string_Suc:
  "nbit_string (Suc m) k =
     nbit_string m (k div 2) @ [if k mod 2 = 1 then CHR ''1'' else CHR ''0'']"
proof -
  have "(k div 2 ^ (m - i)) = (k div 2) div 2 ^ (m - 1 - i)" if "i < m" for i
  proof -
    have "(2::nat) ^ (m - i) = 2 * 2 ^ (m - 1 - i)"
      using that by (metis Suc_diff_Suc diff_Suc_eq_diff_pred power_Suc diff_Suc_1 diff_commute)
    then show ?thesis by (simp add: div_mult2_eq)
  qed
  then show ?thesis by (simp add: nbit_string_def)
qed

lemma bin_digits_small: "k < 2 \<Longrightarrow> bin_digits k = [if k = 0 then CHR ''0'' else CHR ''1'']"
  by (simp add: bin_digits.simps)

lemma bin_digits_big:
  "2 \<le> k \<Longrightarrow> bin_digits k = bin_digits (k div 2) @ [if k mod 2 = 0 then CHR ''0'' else CHR ''1'']"
  by (subst bin_digits.simps) simp

lemma padded_nbit_string:
  "1 \<le> n \<Longrightarrow> k < 2 ^ n \<Longrightarrow>
   replicate (n - length (bin_digits k)) CHR ''0'' @ bin_digits k = nbit_string n k"
proof (induction n arbitrary: k)
  case 0
  then show ?case by simp
next
  case (Suc m)
  show ?case
  proof (cases "m = 0")
    case True
    with Suc.prems have "k < 2" by simp
    then show ?thesis using True
      by (auto simp: bin_digits_small nbit_string_def)
  next
    case False
    then have m: "1 \<le> m" by simp
    show ?thesis
    proof (cases "k < 2")
      case True
      then have k2: "k div 2 = 0" by simp
      have "replicate (m - length (bin_digits 0)) CHR ''0'' @ bin_digits 0 = nbit_string m 0"
        using Suc.IH [of 0] m by simp
      then have "nbit_string m 0 = replicate m CHR ''0''"
        using m by (simp add: bin_digits_small replicate_append_same Suc_diff_le flip: replicate_Suc)
      then show ?thesis using True
        by (auto simp: nbit_string_Suc k2 bin_digits_small)
    next
      case False
      then have big: "2 \<le> k" by simp
      have "k div 2 < 2 ^ m" using Suc.prems by simp
      then have ih: "replicate (m - length (bin_digits (k div 2))) CHR ''0'' @ bin_digits (k div 2)
           = nbit_string m (k div 2)"
        using Suc.IH m by simp
      show ?thesis
        by (simp add: bin_digits_big [OF big] nbit_string_Suc flip: ih)
    qed
  qed
qed

lemma lambda_min_tilde_nonneg: "0 \<le> lambda_min_tilde n lmin lmax"
  by (simp add: lambda_min_tilde_def Let_def)

lemma binstr_padded:
  "binstr n lmin lmax =
     replicate (n - length (bin_digits (nat \<lfloor>lambda_min_tilde n lmin lmax\<rfloor>))) CHR ''0''
       @ bin_digits (nat \<lfloor>lambda_min_tilde n lmin lmax\<rfloor>)"
  by (simp add: binstr_def format_b_def py_int_def lambda_min_tilde_nonneg)

lemma lambda_min_tilde_small:
  assumes "1 \<le> n" "\<bar>lmin * (2 ^ n - 1) / lmax\<bar> < 2 ^ n"
  shows "nat \<lfloor>lambda_min_tilde n lmin lmax\<rfloor> < 2 ^ n"
proof -
  have one: "(1::real) < 2 ^ n"
    using assms(1) by (intro one_less_power) auto
  have "lambda_min_tilde n lmin lmax < 2 ^ n"
    using assms(2) one by (simp add: lambda_min_tilde_def Let_def)
  then have "\<lfloor>lambda_min_tilde n lmin lmax\<rfloor> < 2 ^ n"
    by (simp add: floor_less_iff)
  then show ?thesis
    by (simp add: nat_less_iff)
qed

lemma quotient_fits:
  assumes "lambda_max \<noteq> 0" and "\<bar>lambda_min\<bar> \<le> \<bar>lambda_max :: real\<bar>"
  shows "\<bar>lambda_min * (2 ^ n_l - 1) / lambda_max\<bar> < 2 ^ n_l"
proof -
  have nonneg: "(0::real) \<le> 2 ^ n_l - 1" by simp
  have "\<bar>lambda_min * (2 ^ n_l - 1) / lambda_max\<bar> = \<bar>lambda_min\<bar> / \<bar>lambda_max\<bar> * (2 ^ n_l - 1)"
    using nonneg by (simp add: abs_mult)
  also have "\<dots> \<le> 1 * (2 ^ n_l - 1)"
    using assms nonneg by (intro mult_right_mono) simp_all
  finally show ?thesis by simp
qed

text \<open>
  Claim C2, as amended. For \<open>n_l \<ge> 1\<close> and a nonzero \<open>lambda_max\<close>, \<open>_get_delta\<close> returns a
  value \<open>d\<close> with \<open>0 \<le> d < 1\<close>; and whenever \<open>|lambda_min (2^n_l - 1) / lambda_max| < 2^n_l\<close>,
  as is the case when \<open>|lambda_min| \<le> |lambda_max|\<close>, the string it renders has exactly \<open>n_l\<close>
  bits and \<open>d\<close> is the value the specification describes: the integer part of the clamped
  quantity, rendered on \<open>n_l\<close> bits, with bit \<open>i\<close> weighted by \<open>2^-(i+1)\<close>.
\<close>

theorem get_delta_fixed_point:
  assumes "1 \<le> n_l" and "lambda_max \<noteq> 0"
  shows "\<exists>d. get_delta n_l lambda_min lambda_max = Inr d \<and> 0 \<le> d \<and> d < 1 \<and>
           (\<bar>lambda_min\<bar> \<le> \<bar>lambda_max\<bar> \<longrightarrow> \<bar>lambda_min * (2 ^ n_l - 1) / lambda_max\<bar> < 2 ^ n_l) \<and>
           (\<bar>lambda_min * (2 ^ n_l - 1) / lambda_max\<bar> < 2 ^ n_l \<longrightarrow>
              length (binstr n_l lambda_min lambda_max) = n_l \<and>
              d = spec_delta n_l lambda_min lambda_max)"
proof -
  let ?d = "lamb_min_rep 0 (binstr n_l lambda_min lambda_max)"
  have ret: "get_delta n_l lambda_min lambda_max = Inr ?d"
    using assms(2) by (simp add: get_delta_def)
  have small: "binstr n_l lambda_min lambda_max
        = nbit_string n_l (nat \<lfloor>lambda_min_tilde n_l lambda_min lambda_max\<rfloor>)"
    if "\<bar>lambda_min * (2 ^ n_l - 1) / lambda_max\<bar> < 2 ^ n_l"
    using padded_nbit_string [OF assms(1) lambda_min_tilde_small [OF assms(1) that]]
    by (simp add: binstr_padded)
  have "length (binstr n_l lambda_min lambda_max) = n_l \<and>
        ?d = spec_delta n_l lambda_min lambda_max"
    if "\<bar>lambda_min * (2 ^ n_l - 1) / lambda_max\<bar> < 2 ^ n_l"
    using small [OF that]
    by (simp add: lamb_min_rep_fixed_point spec_delta_def lambda_min_tilde_def Let_def
        nbit_string_def)
  with ret lamb_min_rep_nonneg [of 0] lamb_min_rep_less_one quotient_fits [OF assms(2)]
  show ?thesis
    by blast
qed

theorem get_delta_fixed_point_witness:
  "\<exists>d. get_delta 2 1 3 = Inr d \<and> 0 \<le> d \<and> d < 1 \<and>
         length (binstr 2 1 3) = 2 \<and> d = spec_delta 2 1 3"
  using get_delta_fixed_point [of 2 3 1] by simp

lemma bin_digits_3: "bin_digits 3 = ''11''"
  by (simp add: bin_digits.simps)

text \<open>
  Claim C2 as stated fails when the integer part does not fit on \<open>n_l\<close> bits: the format
  width is a minimum, so for \<open>n_l = 1\<close>, \<open>lambda_min = 3\<close>, \<open>lambda_max = 1\<close> the code renders
  the two-character string \<open>11\<close> and returns \<open>3/4\<close>, where the rendering on one bit gives
  \<open>1/2\<close>.
\<close>

theorem get_delta_overlong_counterexample:
  "binstr 1 3 1 = ''11'' \<and> get_delta 1 3 1 = Inr (3 / 4) \<and> spec_delta 1 3 1 = 1 / 2 \<and>
   get_delta 1 3 1 \<noteq> Inr (spec_delta 1 3 1)"
proof -
  have t: "lambda_min_tilde 1 3 1 = 3"
    by (simp add: lambda_min_tilde_def)
  have b: "binstr 1 3 1 = ''11''"
    by (simp only: binstr_def t) (simp add: py_int_def format_b_def bin_digits_3)
  have g: "get_delta 1 3 1 = Inr (3 / 4)"
    by (simp only: get_delta_def b) (simp add: int_of_char_def)
  have s: "spec_delta 1 3 1 = 1 / 2"
    by (simp add: spec_delta_def fixed_point_def nbit_string_def int_of_char_def)
  show ?thesis using b g s by simp
qed

section \<open>The stages of \<open>construct_circuit\<close>\<close>

lemma kappa_of_set_tolerance [simp]: "kappa_of (set_tolerance s mc) = kappa_of mc"
  by (simp add: kappa_of_def set_tolerance_def split: option.splits)

lemma eigs_bounds_set_tolerance [simp]: "eigs_bounds (set_tolerance s mc) = eigs_bounds mc"
  by (simp add: set_tolerance_def split: option.splits)

lemma mc_num_ancillas_set_tolerance [simp]:
  "mc_num_ancillas (set_tolerance s mc) = mc_num_ancillas mc"
  by (simp add: set_tolerance_def split: option.splits)

lemma construct_circuit_stages:
  assumes "construct_circuit ext s matrix vector neg_vals = (Inr qc, s', out)"
  obtains nb vc mc0 nl delta mc' recip where
    "vector_stage ext vector = Inr (Some (nb, vc))"
    "matrix_stage ext matrix (Some (nb, vc)) = Inr mc0"
    "register_nl nb (kappa_of mc0) neg_vals = Inr nl"
    "eig_stage s (set_tolerance s mc0) nl neg_vals = (Inr (delta, mc'), s', out)"
    "reciprocal_stage ext s' mc' nb nl delta (kappa_of mc0) neg_vals = Inr recip"
    "assemble s' vc mc' nb nl recip = Inr qc"
  using assms
  by (auto simp: construct_circuit_def Let_def split: sum.splits option.splits prod.splits)

lemma construct_circuit_run:
  assumes "vector_stage ext vector = Inr (Some (nb, vc))"
    and "matrix_stage ext matrix (Some (nb, vc)) = Inr mc0"
    and "register_nl nb (kappa_of mc0) neg_vals = Inr nl"
    and "eig_stage s (set_tolerance s mc0) nl neg_vals = (Inr (delta, mc'), s', out)"
    and "reciprocal_stage ext s' mc' nb nl delta (kappa_of mc0) neg_vals = Inr recip"
  shows "construct_circuit ext s matrix vector neg_vals = (assemble s' vc mc' nb nl recip, s', out)"
  using assms by (simp add: construct_circuit_def Let_def)

lemma register_nl_value:
  assumes "register_nl nb kappa neg_vals = Inr nl"
  shows "int nl = max (int nb + 1) \<lceil>log 2 (kappa + 1)\<rceil> + of_bool neg_vals"
  using assms by (auto simp: register_nl_def split: if_splits)

lemma eig_stage_solver:
  assumes "eig_stage s mc nl neg_vals = (r, s', out)"
  shows "exact_reciprocal s' = exact_reciprocal s" "epsilon_r s' = epsilon_r s"
  using assms
  by (auto simp: eig_stage_def split: option.splits prod.splits sum.splits)

section \<open>The register planner\<close>

lemma assemble_qregs:
  assumes "assemble s vc mc nb nl (g, ra, na) = Inr qc"
  shows "qregs qc = [QuantumRegister ''qb'' nb, QuantumRegister ''ql'' nl]
           @ (if 0 < na then [AncillaRegister ''qa'' na] else []) @ [QuantumRegister ''qf'' 1]"
  using assms by (auto simp: assemble_def Let_def split: if_splits)

lemma construct_circuit_nl:
  assumes "construct_circuit ext s matrix vector neg_vals = (Inr qc, s', out)"
    and "vector_stage ext vector = Inr (Some (nb, vc))"
    and "matrix_stage ext matrix (Some (nb, vc)) = Inr mc"
  shows "register_nl nb (kappa_of mc) neg_vals = Inr (reg_size (qregs qc ! 1))"
proof -
  from assms(1) obtain nb' vc' mc0 nl delta mc' recip where st:
    "vector_stage ext vector = Inr (Some (nb', vc'))"
    "matrix_stage ext matrix (Some (nb', vc')) = Inr mc0"
    "register_nl nb' (kappa_of mc0) neg_vals = Inr nl"
    "assemble s' vc' mc' nb' nl recip = Inr qc"
    by (rule construct_circuit_stages)
  from st(1) assms(2) have eq: "nb' = nb" "vc' = vc" by simp_all
  with st(2) assms(3) have mc: "mc0 = mc" by simp
  obtain g ra na where recip: "recip = (g, ra, na)" by (cases recip)
  have "reg_size (qregs qc ! 1) = nl"
    using assemble_qregs [OF st(4) [unfolded recip]] by simp
  with st(3) eq mc show ?thesis by simp
qed

text \<open>
  Claim C3. On every run of \<open>construct_circuit\<close> that returns a circuit, for a vector of
  \<open>nb\<close> qubits and a matrix circuit \<open>mc\<close>, the eigenvalue register (the second register) has
  \<open>nl = max(nb + 1, ceil(log2(kappa + 1))) + (1 if neg_vals else 0)\<close> qubits, where \<open>kappa\<close> is
  the upper condition bound of \<open>mc\<close>, or 1 when it declares none. Hence \<open>nl \<ge> nb + 1\<close>, and
  the run with the other value of \<open>neg_vals\<close> differs by exactly one qubit: one more for
  \<open>True\<close> than for \<open>False\<close>.
\<close>

theorem register_planner_nl:
  assumes vec: "vector_stage ext vector = Inr (Some (nb, vc))"
    and mat: "matrix_stage ext matrix (Some (nb, vc)) = Inr mc"
    and run: "construct_circuit ext s matrix vector neg_vals = (Inr qc, s', out)"
  shows "int (reg_size (qregs qc ! 1))
           = max (int nb + 1)
               \<lceil>log 2 ((case condition_bounds mc of None \<Rightarrow> 1 | Some b \<Rightarrow> snd b) + 1)\<rceil>
             + (if neg_vals then 1 else 0)
         \<and> nb + 1 \<le> reg_size (qregs qc ! 1)
         \<and> (\<forall>qc2 s2 out2.
               construct_circuit ext s matrix vector (\<not> neg_vals) = (Inr qc2, s2, out2) \<longrightarrow>
               int (reg_size (qregs qc2 ! 1))
                 = int (reg_size (qregs qc ! 1)) + (if neg_vals then - 1 else 1))"
proof -
  have k: "kappa_of mc = (case condition_bounds mc of None \<Rightarrow> 1 | Some b \<Rightarrow> snd b)"
    by (simp add: kappa_of_def split: option.splits prod.splits)
  have nl: "int (reg_size (qregs qc ! 1))
      = max (int nb + 1) \<lceil>log 2 (kappa_of mc + 1)\<rceil> + of_bool neg_vals"
    by (rule register_nl_value [OF construct_circuit_nl [OF run vec mat]])
  have other: "int (reg_size (qregs qc2 ! 1))
      = max (int nb + 1) \<lceil>log 2 (kappa_of mc + 1)\<rceil> + of_bool (\<not> neg_vals)"
    if "construct_circuit ext s matrix vector (\<not> neg_vals) = (Inr qc2, s2, out2)"
    for qc2 s2 out2
    by (rule register_nl_value [OF construct_circuit_nl [OF that vec mat]])
  have "int nb + 1 \<le> max (int nb + 1) \<lceil>log 2 (kappa_of mc + 1)\<rceil> + of_bool neg_vals"
    by (cases neg_vals) simp_all
  with nl have "int (nb + 1) \<le> int (reg_size (qregs qc ! 1))"
    by simp
  then have ge: "nb + 1 \<le> reg_size (qregs qc ! 1)"
    by (simp only: of_nat_le_iff)
  have tog: "\<forall>qc2 s2 out2.
               construct_circuit ext s matrix vector (\<not> neg_vals) = (Inr qc2, s2, out2) \<longrightarrow>
               int (reg_size (qregs qc2 ! 1))
                 = int (reg_size (qregs qc ! 1)) + (if neg_vals then - 1 else 1)"
    using other nl by (auto simp del: of_nat_Suc)
  from nl ge tog show ?thesis
    unfolding k by (simp del: of_nat_Suc)
qed

lemma log_2_8: "log 2 8 = 3"
  using log_pow_cancel [of 2 3] by simp

lemma sample_vector_stage:
  "vector_stage ext sample_vector
     = Inr (Some (1, UserGate \<lparr>uc_name = ''b'', uc_num_qubits = 1\<rparr>))"
  by (simp add: vector_stage_def sample_vector_def)

lemma sample_register_nl: "register_nl 1 7 neg_vals = Inr (if neg_vals then 4 else 3)"
  by (simp add: register_nl_def log_2_8)

lemma construct_circuit_no_bounds_run:
  assumes "eigs_bounds mc = None" and "register_nl 1 (kappa_of mc) neg_vals = Inr nl"
    and "exact_reciprocal s"
  shows "construct_circuit ext s (MCircuit mc) sample_vector neg_vals
           = (assemble s (UserGate \<lparr>uc_name = ''b'', uc_num_qubits = 1\<rparr>) (set_tolerance s mc) 1 nl
                (ExactReciprocal nl (1 / 2 ^ nl) neg_vals, 0, mc_num_ancillas mc),
              s, [ScalingNotice])"
proof -
  let ?vc = "UserGate \<lparr>uc_name = ''b'', uc_num_qubits = 1\<rparr>"
  have m: "matrix_stage ext (MCircuit mc) (Some (1, ?vc)) = Inr mc"
    by (simp add: matrix_stage_def)
  have e: "eig_stage s (set_tolerance s mc) nl neg_vals
             = (Inr (1 / 2 ^ nl, set_tolerance s mc), s, [ScalingNotice])"
    using assms(1) by (simp add: eig_stage_def)
  have r: "reciprocal_stage ext s (set_tolerance s mc) 1 nl (1 / 2 ^ nl) (kappa_of mc) neg_vals
             = Inr (ExactReciprocal nl (1 / 2 ^ nl) neg_vals, 0, mc_num_ancillas mc)"
    using assms(3) by (simp add: reciprocal_stage_def)
  show ?thesis
    by (rule construct_circuit_run [OF sample_vector_stage m assms(2) e r])
qed

lemma assemble_exact:
  assumes "exact_reciprocal s"
  shows "\<exists>qc. assemble s vc mc nb nl recip = Inr qc"
  using assms by (cases recip) (simp add: assemble_def Let_def)

theorem register_planner_nl_witness:
  "\<exists>qcT qcF sT sF outT outF.
     construct_circuit sample_externals (HHL_init (1 / 100) None)
        (MCircuit (sample_matrix (Some (1, 7)) None)) sample_vector True = (Inr qcT, sT, outT)
   \<and> construct_circuit sample_externals (HHL_init (1 / 100) None)
        (MCircuit (sample_matrix (Some (1, 7)) None)) sample_vector False = (Inr qcF, sF, outF)
   \<and> reg_size (qregs qcT ! 1) = 4 \<and> reg_size (qregs qcF ! 1) = 3"
proof -
  let ?s = "HHL_init (1 / 100) None"
  let ?mc = "sample_matrix (Some (1, 7)) None"
  let ?vc = "UserGate \<lparr>uc_name = ''b'', uc_num_qubits = 1\<rparr>"
  have k: "kappa_of ?mc = 7" by (simp add: kappa_of_def sample_matrix_def)
  have eb: "eigs_bounds ?mc = None" by (simp add: sample_matrix_def)
  have ex: "exact_reciprocal ?s" by (simp add: HHL_init_def)
  have nl: "register_nl 1 (kappa_of ?mc) neg_vals = Inr (if neg_vals then 4 else 3)" for neg_vals
    unfolding k by (rule sample_register_nl)
  obtain qcT where runT: "construct_circuit sample_externals ?s (MCircuit ?mc) sample_vector True
      = (Inr qcT, ?s, [ScalingNotice])"
    using construct_circuit_no_bounds_run [OF eb nl ex, of sample_externals True]
      assemble_exact [OF ex] by metis
  obtain qcF where runF: "construct_circuit sample_externals ?s (MCircuit ?mc) sample_vector False
      = (Inr qcF, ?s, [ScalingNotice])"
    using construct_circuit_no_bounds_run [OF eb nl ex, of sample_externals False]
      assemble_exact [OF ex] by metis
  have m: "matrix_stage sample_externals (MCircuit ?mc) (Some (1, ?vc)) = Inr ?mc"
    by (simp add: matrix_stage_def)
  have cb: "condition_bounds ?mc = Some (1, 7)" by (simp add: sample_matrix_def)
  have "int (reg_size (qregs qcT ! 1)) = 4
      \<and> int (reg_size (qregs qcF ! 1)) = int (reg_size (qregs qcT ! 1)) - 1"
    using register_planner_nl [OF sample_vector_stage m runT] runF
    by (simp add: cb log_2_8)
  then have "reg_size (qregs qcT ! 1) = 4 \<and> reg_size (qregs qcF ! 1) = 3"
    by linarith
  with runT runF show ?thesis by blast
qed

section \<open>The circuit assembler\<close>

lemma reciprocal_stage_gate:
  assumes "reciprocal_stage ext s mc nb nl delta kappa neg_vals = Inr (g, ra, na)"
  shows "if exact_reciprocal s then g = ExactReciprocal nl delta neg_vals \<and> na = mc_num_ancillas mc
         else (\<exists>d b. g = PiecewiseChebyshev (\<lambda>x. arcsin (delta / x)) d b nl)
              \<and> na = max (mc_num_ancillas mc) ra"
  using assms by (auto simp: reciprocal_stage_def Let_def split: if_splits)

lemma eig_stage_ancillas:
  assumes "eig_stage s mc nl neg_vals = (Inr (delta, mc'), s', out)"
  shows "mc_num_ancillas mc' = mc_num_ancillas mc"
  using assms
  by (auto simp: eig_stage_def split: option.splits prod.splits sum.splits)

lemma assemble_data:
  assumes "assemble s vc mc nb nl (g, ra, na) = Inr qc"
  shows "data qc =
     [(vc, bits (QuantumRegister ''qb'' nb)),
      (PhaseEstimation nl mc,
         bits (QuantumRegister ''ql'' nl) @ bits (QuantumRegister ''qb'' nb)
           @ take (mc_num_ancillas mc) (bits (AncillaRegister ''qa'' na))),
      (g, if exact_reciprocal s
          then rev (bits (QuantumRegister ''ql'' nl)) @ [Qubit (QuantumRegister ''qf'' 1) 0]
          else bits (QuantumRegister ''ql'' nl) @ [Qubit (QuantumRegister ''qf'' 1) 0]
                 @ take ra (bits (AncillaRegister ''qa'' na))),
      (Inverse (PhaseEstimation nl mc),
         bits (QuantumRegister ''ql'' nl) @ bits (QuantumRegister ''qb'' nb)
           @ take (mc_num_ancillas mc) (bits (AncillaRegister ''qa'' na)))]"
    and "cregs qc = []"
  using assms by (auto simp: assemble_def Let_def bits_def split: if_splits)

lemma vector_stage_no_measure:
  assumes "vector_stage ext vector = Inr (Some (nb, vc))"
  shows "\<not> is_measure vc"
  using assms by (auto simp: vector_stage_def Let_def split: vector_input.splits if_splits)

text \<open>
  Claim C4. Every circuit that \<open>construct_circuit\<close> returns has the registers
  \<open>qb, ql, [qa when na > 0], qf\<close> in this order and exactly four instructions, in this order:
  the vector circuit on \<open>qb\<close>; phase estimation on \<open>ql\<close>, then \<open>qb\<close>, then the matrix
  circuit's ancillas; the reciprocal circuit, in the exact variant on \<open>ql\<close> reversed followed
  by the flag qubit; and the inverse of the same phase estimation on the same qubits. It has
  no classical register and no measurement.
\<close>

theorem hhl_circuit_layout:
  assumes run: "construct_circuit ext s matrix vector neg_vals = (Inr qc, s', out)"
  shows "\<exists>nb nl na ra vc mc recip.
      vector_stage ext vector = Inr (Some (nb, vc))
    \<and> qregs qc = [QuantumRegister ''qb'' nb, QuantumRegister ''ql'' nl]
                  @ (if 0 < na then [AncillaRegister ''qa'' na] else [])
                  @ [QuantumRegister ''qf'' 1]
    \<and> data qc =
        [(vc, bits (QuantumRegister ''qb'' nb)),
         (PhaseEstimation nl mc,
            bits (QuantumRegister ''ql'' nl) @ bits (QuantumRegister ''qb'' nb)
              @ take (mc_num_ancillas mc) (bits (AncillaRegister ''qa'' na))),
         (recip,
            if exact_reciprocal s
            then rev (bits (QuantumRegister ''ql'' nl)) @ [Qubit (QuantumRegister ''qf'' 1) 0]
            else bits (QuantumRegister ''ql'' nl) @ [Qubit (QuantumRegister ''qf'' 1) 0]
                   @ take ra (bits (AncillaRegister ''qa'' na))),
         (Inverse (PhaseEstimation nl mc),
            bits (QuantumRegister ''ql'' nl) @ bits (QuantumRegister ''qb'' nb)
              @ take (mc_num_ancillas mc) (bits (AncillaRegister ''qa'' na)))]
    \<and> (if exact_reciprocal s then \<exists>delta. recip = ExactReciprocal nl delta neg_vals
        else \<exists>f d b. recip = PiecewiseChebyshev f d b nl)
    \<and> \<not> has_measurement qc"
proof -
  from run obtain nb vc mc0 nl delta mc' recip where st:
    "vector_stage ext vector = Inr (Some (nb, vc))"
    "eig_stage s (set_tolerance s mc0) nl neg_vals = (Inr (delta, mc'), s', out)"
    "reciprocal_stage ext s' mc' nb nl delta (kappa_of mc0) neg_vals = Inr recip"
    "assemble s' vc mc' nb nl recip = Inr qc"
    by (rule construct_circuit_stages)
  obtain g ra na where recip: "recip = (g, ra, na)" by (cases recip)
  have ex: "exact_reciprocal s' = exact_reciprocal s"
    by (rule eig_stage_solver(1) [OF st(2)])
  note regs = assemble_qregs [OF st(4) [unfolded recip]]
  note dat = assemble_data [OF st(4) [unfolded recip]]
  have gate: "if exact_reciprocal s then \<exists>delta. g = ExactReciprocal nl delta neg_vals
              else \<exists>f d b. g = PiecewiseChebyshev f d b nl"
    using reciprocal_stage_gate [OF st(3) [unfolded recip]] ex by (auto split: if_splits)
  have nomeas: "\<not> has_measurement qc"
    using gate vector_stage_no_measure [OF st(1)]
    by (auto simp: has_measurement_def dat split: if_splits)
  show ?thesis
    using st(1) regs dat(1) gate nomeas unfolding ex by blast
qed

theorem hhl_circuit_layout_witness:
  "\<exists>qc s' out.
     construct_circuit sample_externals (HHL_init (1 / 100) None)
        (MCircuit (sample_matrix (Some (1, 7)) None)) sample_vector True = (Inr qc, s', out)
   \<and> qregs qc = [QuantumRegister ''qb'' 1, QuantumRegister ''ql'' 4, QuantumRegister ''qf'' 1]
   \<and> map fst (data qc)
       = [UserGate \<lparr>uc_name = ''b'', uc_num_qubits = 1\<rparr>,
          PhaseEstimation 4 (set_tolerance (HHL_init (1 / 100) None) (sample_matrix (Some (1, 7)) None)),
          ExactReciprocal 4 (1 / 16) True,
          Inverse (PhaseEstimation 4
            (set_tolerance (HHL_init (1 / 100) None) (sample_matrix (Some (1, 7)) None)))]
   \<and> \<not> has_measurement qc"
proof -
  let ?s = "HHL_init (1 / 100) None"
  let ?mc = "sample_matrix (Some (1, 7)) None"
  let ?vc = "UserGate \<lparr>uc_name = ''b'', uc_num_qubits = 1\<rparr>"
  have k: "kappa_of ?mc = 7" by (simp add: kappa_of_def sample_matrix_def)
  have eb: "eigs_bounds ?mc = None" by (simp add: sample_matrix_def)
  have ex: "exact_reciprocal ?s" by (simp add: HHL_init_def)
  have an: "mc_num_ancillas ?mc = 0" by (simp add: sample_matrix_def)
  have nl: "register_nl 1 (kappa_of ?mc) True = Inr 4"
    unfolding k using sample_register_nl [of True] by simp
  obtain qc where qc: "assemble ?s ?vc (set_tolerance ?s ?mc) 1 4
      (ExactReciprocal 4 (1 / 2 ^ 4) True, 0, mc_num_ancillas ?mc) = Inr qc"
    using assemble_exact [OF ex] by blast
  have run: "construct_circuit sample_externals ?s (MCircuit ?mc) sample_vector True
      = (Inr qc, ?s, [ScalingNotice])"
    using construct_circuit_no_bounds_run [OF eb nl ex, of sample_externals] qc by simp
  have regs: "qregs qc = [QuantumRegister ''qb'' 1, QuantumRegister ''ql'' 4, QuantumRegister ''qf'' 1]"
    using assemble_qregs [OF qc] an by simp
  have gates: "map fst (data qc)
       = [?vc, PhaseEstimation 4 (set_tolerance ?s ?mc), ExactReciprocal 4 (1 / 16) True,
          Inverse (PhaseEstimation 4 (set_tolerance ?s ?mc))]"
    using assemble_data(1) [OF qc] by simp
  have nm: "\<not> has_measurement qc"
    using hhl_circuit_layout [OF run] by blast
  show ?thesis
    by (rule exI [of _ qc], rule exI [of _ ?s], rule exI [of _ "[ScalingNotice]"])
      (simp only: run regs gates nm simp_thms)
qed

section \<open>Input validation\<close>

text \<open>
  Claim C6. When a semantic observable (one or a list) is passed together with an
  observable circuit or a post-processing function, \<open>solve\<close> raises the ValueError at
  entry: the result does not depend on the matrix or the vector, the solver is unchanged
  and nothing has been printed, so no circuit was constructed.
\<close>

theorem solve_request_conflict:
  assumes "obs_request \<noteq> NoObservable"
    and "observable_circuit \<noteq> None \<or> post_processing \<noteq> None"
  shows "solve ext s matrix vector obs_request observable_circuit post_processing
           = (Inl (ValueError
                ''If observable is passed, observable_circuit and post_processing cannot be set.''),
              s, [])"
  using assms by (simp add: solve_def)

theorem solve_request_conflict_witness:
  "solve sample_externals (HHL_init (1 / 100) None)
      (MCircuit (sample_matrix None None)) sample_vector
      (OneObservable sample_observable) None (Some sample_post_processing)
     = (Inl (ValueError
          ''If observable is passed, observable_circuit and post_processing cannot be set.''),
        HHL_init (1 / 100) None, [])"
  using solve_request_conflict
    [of "OneObservable sample_observable" None "Some sample_post_processing"]
  by simp

lemma not_power_of_two:
  "(n = 0 \<or> frac (log 2 (real n)) \<noteq> 0) \<longleftrightarrow> (\<forall>k. n \<noteq> 2 ^ k)"
proof
  assume l: "n = 0 \<or> frac (log 2 (real n)) \<noteq> 0"
  show "\<forall>k. n \<noteq> 2 ^ k"
  proof (intro allI notI)
    fix k assume n: "n = 2 ^ k"
    then have "log 2 (real n) = real k"
      by (simp add: log_pow_cancel)
    then have "frac (log 2 (real n)) = 0" by simp
    with l n show False by simp
  qed
next
  assume r: "\<forall>k. n \<noteq> 2 ^ k"
  show "n = 0 \<or> frac (log 2 (real n)) \<noteq> 0"
  proof (rule ccontr)
    assume "\<not> (n = 0 \<or> frac (log 2 (real n)) \<noteq> 0)"
    then have pos: "0 < n" and fr: "frac (log 2 (real n)) = 0" by simp_all
    from fr obtain z :: int where z: "log 2 (real n) = of_int z"
      by (auto simp: frac_eq_0_iff elim: Ints_cases)
    have "0 \<le> log 2 (real n)" using pos by simp
    with z have z0: "0 \<le> z" by simp
    have "real n = 2 powr (log 2 (real n))" using pos by simp
    also have "\<dots> = 2 powr (real (nat z))" using z z0 by simp
    also have "\<dots> = 2 ^ nat z" by (simp add: powr_realpow)
    finally have "real n = real (2 ^ nat z)" by simp
    then have "n = 2 ^ nat z" by (simp only: of_nat_eq_iff)
    with r show False by blast
  qed
qed

text \<open>
  Claim C7. For a matrix given as an array that is non-square, or whose dimension is not a
  power of two, or that is not equal to its conjugate transpose within the tolerance of
  \<open>allclose\<close>, or whose dimension is not \<open>2 ^ nb\<close> for the qubit count \<open>nb\<close> of the vector,
  and for a matrix that is neither an array nor a circuit, \<open>construct_circuit\<close> raises; the
  solver is unchanged and nothing has been printed, so the failure precedes tolerance
  setting, register planning, eigenvalue scaling and assembly.
\<close>

theorem matrix_validation_raises:
  assumes "(matrix = MArray m
            \<and> (nrows m \<noteq> ncols m
               \<or> (\<forall>n. nrows m \<noteq> 2 ^ n)
               \<or> \<not> allclose m (conj_T m)
               \<or> (\<forall>nb vc. vector_stage ext vector = Inr (Some (nb, vc)) \<longrightarrow> nrows m \<noteq> 2 ^ nb)))
           \<or> matrix = MOther"
  shows "\<exists>e. construct_circuit ext s matrix vector neg_vals = (Inl e, s, [])"
proof (cases "vector_stage ext vector")
  case (Inl e)
  then show ?thesis by (simp add: construct_circuit_def)
next
  case (Inr vec)
  have "\<exists>e. matrix_stage ext matrix vec = Inl e"
  proof (cases matrix)
    case (MCircuit c)
    with assms show ?thesis by simp
  next
    case MOther
    then show ?thesis by (simp add: matrix_stage_def)
  next
    case (MArray a)
    with assms have a: "a = m" by simp
    from assms MArray have bad:
      "nrows m \<noteq> ncols m \<or> (nrows m = 0 \<or> frac (log 2 (real (nrows m))) \<noteq> 0)
        \<or> \<not> allclose m (conj_T m)
        \<or> (\<forall>nb vc. vec = Some (nb, vc) \<longrightarrow> nrows m \<noteq> 2 ^ nb)"
      using Inr by (auto simp: not_power_of_two)
    then show ?thesis
      unfolding MArray a
      by (auto simp: matrix_stage_def split: option.splits)
  qed
  then show ?thesis
    using Inr by (auto simp: construct_circuit_def)
qed

theorem matrix_validation_raises_witness:
  "\<not> allclose sample_array (conj_T sample_array)
   \<and> construct_circuit sample_externals (HHL_init (1 / 100) None) (MArray sample_array)
       sample_vector True
     = (Inl (ValueError ''Input matrix must be hermitian!''), HHL_init (1 / 100) None, [])"
proof -
  have bad: "\<not> cmod (element sample_array 0 1 - element (conj_T sample_array) 0 1)
            \<le> 1 / 10 ^ 8 + 1 / 10 ^ 5 * cmod (element (conj_T sample_array) 0 1)"
    by (simp add: sample_array_def conj_T_def)
  have nh: "\<not> allclose sample_array (conj_T sample_array)"
  proof
    assume "allclose sample_array (conj_T sample_array)"
    then have "\<forall>i \<in> {..<2::nat}. \<forall>j \<in> {..<2::nat}.
        cmod (element sample_array i j - element (conj_T sample_array) i j)
          \<le> 1 / 10 ^ 8 + 1 / 10 ^ 5 * cmod (element (conj_T sample_array) i j)"
      unfolding allclose_def by (simp add: sample_array_def)
    then have "\<forall>j \<in> {..<2::nat}.
        cmod (element sample_array 0 j - element (conj_T sample_array) 0 j)
          \<le> 1 / 10 ^ 8 + 1 / 10 ^ 5 * cmod (element (conj_T sample_array) 0 j)"
      by (rule bspec) simp
    then have "cmod (element sample_array 0 1 - element (conj_T sample_array) 0 1)
          \<le> 1 / 10 ^ 8 + 1 / 10 ^ 5 * cmod (element (conj_T sample_array) 0 1)"
      by (rule bspec) simp
    with bad show False by contradiction
  qed
  have pow: "\<not> (nrows sample_array = 0 \<or> frac (log 2 (real (nrows sample_array))) \<noteq> 0)"
    unfolding not_power_of_two by (auto simp: sample_array_def intro: exI [of _ 1])
  from matrix_validation_raises [of "MArray sample_array" sample_array sample_externals
      sample_vector "HHL_init (1 / 100) None" True] nh
  obtain e where e: "construct_circuit sample_externals (HHL_init (1 / 100) None)
      (MArray sample_array) sample_vector True = (Inl e, HHL_init (1 / 100) None, [])"
    by auto
  have "matrix_stage sample_externals (MArray sample_array)
          (Some (1, UserGate \<lparr>uc_name = ''b'', uc_num_qubits = 1\<rparr>))
        = Inl (ValueError ''Input matrix must be hermitian!'')"
    using nh pow by (simp add: matrix_stage_def) (simp add: sample_array_def)
  then have "e = ValueError ''Input matrix must be hermitian!''"
    using e by (simp add: construct_circuit_def sample_vector_stage)
  with e nh show ?thesis by simp
qed

section \<open>Eigenvalue scaling\<close>

lemma lambda_min_guard_small:
  "\<bar>lambda_min\<bar> < 1 / 10 ^ 10 \<Longrightarrow>
   lambda_min_guard lambda_min lambda_max
     = (max (1 / 10 ^ 10) (lambda_max / 1000),
        [SmallEigenvalueWarning lambda_min (max (1 / 10 ^ 10) (lambda_max / 1000))])"
  by (simp add: lambda_min_guard_def Let_def)

lemma lambda_min_guard_large:
  "\<not> \<bar>lambda_min\<bar> < 1 / 10 ^ 10 \<Longrightarrow> lambda_min_guard lambda_min lambda_max = (lambda_min, [])"
  by (simp add: lambda_min_guard_def)

lemma lambda_min_guard_nonzero: "fst (lambda_min_guard lambda_min lambda_max) \<noteq> 0"
  by (auto simp: lambda_min_guard_def Let_def max_def)

lemma eig_stage_bounds:
  assumes "eigs_bounds mc = Some (lambda_min0, lambda_max)"
    and "eig_stage s mc nl neg_vals = (Inr (delta, mc'), s', out)"
  shows "get_delta (nl - of_bool neg_vals) (fst (lambda_min_guard lambda_min0 lambda_max)) lambda_max
           = Inr delta"
    and "mc' = mc\<lparr>evolution_time :=
                  Some (2 * pi * delta / fst (lambda_min_guard lambda_min0 lambda_max)
                          / 2 ^ (of_bool neg_vals :: nat))\<rparr>"
    and "s' = s\<lparr>scaling := fst (lambda_min_guard lambda_min0 lambda_max)\<rparr>"
    and "out = snd (lambda_min_guard lambda_min0 lambda_max)"
proof -
  obtain lambda_min msgs where g: "lambda_min_guard lambda_min0 lambda_max = (lambda_min, msgs)"
    by (cases "lambda_min_guard lambda_min0 lambda_max")
  show "get_delta (nl - of_bool neg_vals) (fst (lambda_min_guard lambda_min0 lambda_max)) lambda_max
           = Inr delta"
    and "mc' = mc\<lparr>evolution_time :=
                  Some (2 * pi * delta / fst (lambda_min_guard lambda_min0 lambda_max)
                          / 2 ^ (of_bool neg_vals :: nat))\<rparr>"
    and "s' = s\<lparr>scaling := fst (lambda_min_guard lambda_min0 lambda_max)\<rparr>"
    and "out = snd (lambda_min_guard lambda_min0 lambda_max)"
    using assms
    by (cases "get_delta (nl - of_bool neg_vals) lambda_min lambda_max";
        simp add: eig_stage_def g)+
qed

lemma eig_stage_bounds_run:
  assumes "eigs_bounds mc = Some (lambda_min0, lambda_max)"
    and "get_delta (nl - of_bool neg_vals) (fst (lambda_min_guard lambda_min0 lambda_max)) lambda_max
           = Inr delta"
  shows "eig_stage s mc nl neg_vals
           = (Inr (delta, mc\<lparr>evolution_time :=
                  Some (2 * pi * delta / fst (lambda_min_guard lambda_min0 lambda_max)
                          / 2 ^ (of_bool neg_vals :: nat))\<rparr>),
              s\<lparr>scaling := fst (lambda_min_guard lambda_min0 lambda_max)\<rparr>,
              snd (lambda_min_guard lambda_min0 lambda_max))"
  using assms by (cases "lambda_min_guard lambda_min0 lambda_max") (simp add: eig_stage_def)

lemma eig_stage_none:
  "eigs_bounds mc = None \<Longrightarrow> eig_stage s mc nl neg_vals = (Inr (1 / 2 ^ nl, mc), s, [ScalingNotice])"
  by (simp add: eig_stage_def)

lemma construct_circuit_parts:
  assumes run: "construct_circuit ext s matrix vector neg_vals = (Inr qc, s', out)"
    and vec: "vector_stage ext vector = Inr (Some (nb, vc))"
    and mat: "matrix_stage ext matrix (Some (nb, vc)) = Inr mc"
  obtains nl delta mc' g ra na where
    "register_nl nb (kappa_of mc) neg_vals = Inr nl"
    "eig_stage s (set_tolerance s mc) nl neg_vals = (Inr (delta, mc'), s', out)"
    "reciprocal_stage ext s' mc' nb nl delta (kappa_of mc) neg_vals = Inr (g, ra, na)"
    "assemble s' vc mc' nb nl (g, ra, na) = Inr qc"
proof -
  from run obtain nb' vc' mc0 nl delta mc' recip where st:
    "vector_stage ext vector = Inr (Some (nb', vc'))"
    "matrix_stage ext matrix (Some (nb', vc')) = Inr mc0"
    "register_nl nb' (kappa_of mc0) neg_vals = Inr nl"
    "eig_stage s (set_tolerance s mc0) nl neg_vals = (Inr (delta, mc'), s', out)"
    "reciprocal_stage ext s' mc' nb' nl delta (kappa_of mc0) neg_vals = Inr recip"
    "assemble s' vc' mc' nb' nl recip = Inr qc"
    by (rule construct_circuit_stages)
  from st(1) vec have eq: "nb' = nb" "vc' = vc" by simp_all
  with st(2) mat have mc: "mc0 = mc" by simp
  obtain g ra na where "recip = (g, ra, na)" by (cases recip)
  with st eq mc that show thesis by simp
qed

text \<open>
  Claim C9. On a run that returns a circuit for a matrix circuit declaring eigenvalue bounds,
  with \<open>lambda_min\<close> the lower bound after the small-eigenvalue guard: \<open>delta\<close> is
  \<open>_get_delta\<close> on \<open>nl - neg_vals\<close> bits, the matrix circuit inside the phase estimation has the
  evolution time \<open>2 pi delta / lambda_min / 2 ^ neg_vals\<close>, the reciprocal circuit is built
  from this \<open>delta\<close>, and the solver's scaling has become \<open>lambda_min\<close>.
\<close>

theorem eigenvalue_bounds_scaling:
  assumes vec: "vector_stage ext vector = Inr (Some (nb, vc))"
    and mat: "matrix_stage ext matrix (Some (nb, vc)) = Inr mc"
    and eb: "eigs_bounds mc = Some (lambda_min0, lambda_max)"
    and run: "construct_circuit ext s matrix vector neg_vals = (Inr qc, s', out)"
  shows "\<exists>delta mc' qs.
      get_delta (reg_size (qregs qc ! 1) - of_bool neg_vals)
          (fst (lambda_min_guard lambda_min0 lambda_max)) lambda_max = Inr delta
    \<and> data qc ! 1 = (PhaseEstimation (reg_size (qregs qc ! 1)) mc', qs)
    \<and> evolution_time mc'
        = Some (2 * pi * delta / fst (lambda_min_guard lambda_min0 lambda_max)
                  / 2 ^ (of_bool neg_vals :: nat))
    \<and> (if exact_reciprocal s
        then fst (data qc ! 2) = ExactReciprocal (reg_size (qregs qc ! 1)) delta neg_vals
        else \<exists>d b. fst (data qc ! 2)
               = PiecewiseChebyshev (\<lambda>x. arcsin (delta / x)) d b (reg_size (qregs qc ! 1)))
    \<and> s' = s\<lparr>scaling := fst (lambda_min_guard lambda_min0 lambda_max)\<rparr>"
proof -
  from run vec mat obtain nl delta mc' g ra na where st:
    "eig_stage s (set_tolerance s mc) nl neg_vals = (Inr (delta, mc'), s', out)"
    "reciprocal_stage ext s' mc' nb nl delta (kappa_of mc) neg_vals = Inr (g, ra, na)"
    "assemble s' vc mc' nb nl (g, ra, na) = Inr qc"
    by (rule construct_circuit_parts)
  have eb': "eigs_bounds (set_tolerance s mc) = Some (lambda_min0, lambda_max)"
    using eb by simp
  note e = eig_stage_bounds [OF eb' st(1)]
  have nl: "reg_size (qregs qc ! 1) = nl"
    using assemble_qregs [OF st(3)] by simp
  have ex: "exact_reciprocal s' = exact_reciprocal s"
    by (rule eig_stage_solver(1) [OF st(1)])
  have gate: "if exact_reciprocal s then g = ExactReciprocal nl delta neg_vals
              else \<exists>d b. g = PiecewiseChebyshev (\<lambda>x. arcsin (delta / x)) d b nl"
    using reciprocal_stage_gate [OF st(2)] ex by (auto split: if_splits)
  have ev: "evolution_time mc'
      = Some (2 * pi * delta / fst (lambda_min_guard lambda_min0 lambda_max)
                / 2 ^ (of_bool neg_vals :: nat))"
    unfolding e(2) by simp
  have d1: "\<exists>qs. data qc ! 1 = (PhaseEstimation nl mc', qs)"
    and d2: "fst (data qc ! 2) = g"
    using assemble_data(1) [OF st(3)] by simp_all
  from e(1) d1 ev gate e(3) show ?thesis
    unfolding nl d2 by blast
qed

lemma construct_circuit_exact_bounds_run:
  assumes vec: "vector_stage ext vector = Inr (Some (nb, vc))"
    and mat: "matrix_stage ext matrix (Some (nb, vc)) = Inr mc"
    and nl: "register_nl nb (kappa_of mc) neg_vals = Inr nl"
    and eb: "eigs_bounds mc = Some (lambda_min0, lambda_max)"
    and gd: "get_delta (nl - of_bool neg_vals) (fst (lambda_min_guard lambda_min0 lambda_max))
               lambda_max = Inr delta"
    and ex: "exact_reciprocal s"
  shows "construct_circuit ext s matrix vector neg_vals
     = (assemble (s\<lparr>scaling := fst (lambda_min_guard lambda_min0 lambda_max)\<rparr>) vc
          ((set_tolerance s mc)\<lparr>evolution_time :=
              Some (2 * pi * delta / fst (lambda_min_guard lambda_min0 lambda_max)
                      / 2 ^ (of_bool neg_vals :: nat))\<rparr>)
          nb nl (ExactReciprocal nl delta neg_vals, 0, mc_num_ancillas mc),
        s\<lparr>scaling := fst (lambda_min_guard lambda_min0 lambda_max)\<rparr>,
        snd (lambda_min_guard lambda_min0 lambda_max))"
proof -
  have eb': "eigs_bounds (set_tolerance s mc) = Some (lambda_min0, lambda_max)"
    using eb by simp
  note e = eig_stage_bounds_run [OF eb' gd, of s]
  have r: "reciprocal_stage ext (s\<lparr>scaling := fst (lambda_min_guard lambda_min0 lambda_max)\<rparr>)
      ((set_tolerance s mc)\<lparr>evolution_time :=
              Some (2 * pi * delta / fst (lambda_min_guard lambda_min0 lambda_max)
                      / 2 ^ (of_bool neg_vals :: nat))\<rparr>)
      nb nl delta (kappa_of mc) neg_vals
      = Inr (ExactReciprocal nl delta neg_vals, 0, mc_num_ancillas mc)"
    using ex by (simp add: reciprocal_stage_def)
  show ?thesis
    by (rule construct_circuit_run [OF vec mat nl e r])
qed

lemma get_delta_2_2_6: "get_delta 2 2 6 = Inr (1 / 4)"
proof -
  have t: "lambda_min_tilde 2 2 6 = 1"
    by (simp add: lambda_min_tilde_def)
  have b: "binstr 2 2 6 = ''01''"
    by (simp only: binstr_def t) (simp add: py_int_def format_b_def bin_digits_small)
  show ?thesis
    by (simp only: get_delta_def b) (simp add: int_of_char_def)
qed

lemma register_nl_1_1: "register_nl 1 1 neg_vals = Inr (if neg_vals then 3 else 2)"
  by (simp add: register_nl_def)

theorem eigenvalue_bounds_scaling_witness:
  "\<exists>qc s' out mc' qs.
     construct_circuit sample_externals (HHL_init (1 / 100) None)
        (MCircuit (sample_matrix None (Some (2, 6)))) sample_vector True = (Inr qc, s', out)
   \<and> get_delta 2 2 6 = Inr (1 / 4)
   \<and> data qc ! 1 = (PhaseEstimation 3 mc', qs)
   \<and> evolution_time mc' = Some (pi / 8)
   \<and> fst (data qc ! 2) = ExactReciprocal 3 (1 / 4) True
   \<and> scaling s' = 2"
proof -
  let ?s = "HHL_init (1 / 100) None"
  let ?mc = "sample_matrix None (Some (2, 6))"
  let ?vc = "UserGate \<lparr>uc_name = ''b'', uc_num_qubits = 1\<rparr>"
  have vec: "vector_stage sample_externals sample_vector = Inr (Some (1, ?vc))"
    by (rule sample_vector_stage)
  have mat: "matrix_stage sample_externals (MCircuit ?mc) (Some (1, ?vc)) = Inr ?mc"
    by (simp add: matrix_stage_def)
  have k: "kappa_of ?mc = 1" by (simp add: kappa_of_def sample_matrix_def)
  have eb: "eigs_bounds ?mc = Some (2, 6)" by (simp add: sample_matrix_def)
  have ex: "exact_reciprocal ?s" by (simp add: HHL_init_def)
  have nl: "register_nl 1 (kappa_of ?mc) True = Inr 3"
    unfolding k using register_nl_1_1 [of True] by simp
  have g: "fst (lambda_min_guard 2 6) = 2" by (simp add: lambda_min_guard_def)
  have gd: "get_delta (3 - of_bool True) (fst (lambda_min_guard 2 6)) 6 = Inr (1 / 4)"
    unfolding g using get_delta_2_2_6 by simp
  let ?S = "?s\<lparr>scaling := fst (lambda_min_guard 2 6)\<rparr>"
  let ?M = "(set_tolerance ?s ?mc)\<lparr>evolution_time :=
              Some (2 * pi * (1 / 4) / fst (lambda_min_guard 2 6) / 2 ^ (of_bool True :: nat))\<rparr>"
  let ?R = "(ExactReciprocal 3 (1 / 4) True, 0 :: nat, mc_num_ancillas ?mc)"
  have ex': "exact_reciprocal ?S" using ex by simp
  obtain qc where qc: "assemble ?S ?vc ?M 1 3 ?R = Inr qc"
    using assemble_exact [OF ex', of ?vc ?M 1 3 ?R] by blast
  define s' where "s' = ?S"
  define out where "out = snd (lambda_min_guard 2 6)"
  have run:
    "construct_circuit sample_externals ?s (MCircuit ?mc) sample_vector True = (Inr qc, s', out)"
    unfolding s'_def out_def
    using construct_circuit_exact_bounds_run [OF vec mat nl eb gd ex] qc by simp
  have nl3: "reg_size (qregs qc ! 1) = 3"
    using construct_circuit_nl [OF run vec mat] nl by simp
  from eigenvalue_bounds_scaling [OF vec mat eb run] obtain delta mc' qs where r:
    "get_delta (3 - of_bool True) (fst (lambda_min_guard 2 6)) 6 = Inr delta"
    "data qc ! 1 = (PhaseEstimation 3 mc', qs)"
    "evolution_time mc' = Some (2 * pi * delta / fst (lambda_min_guard 2 6) / 2 ^ (of_bool True :: nat))"
    "fst (data qc ! 2) = ExactReciprocal 3 delta True"
    "s' = ?s\<lparr>scaling := fst (lambda_min_guard 2 6)\<rparr>"
    unfolding nl3 using ex by auto
  from r(1) gd have d: "delta = 1 / 4" by simp
  have ev: "evolution_time mc' = Some (pi / 8)"
    using r(3) unfolding d g by simp
  have sc: "scaling s' = 2" using r(5) g by simp
  show ?thesis
    by (rule exI [of _ qc], rule exI [of _ s'], rule exI [of _ out], rule exI [of _ mc'],
        rule exI [of _ qs])
      (simp only: run get_delta_2_2_6 r(2) ev r(4) [unfolded d] sc simp_thms)
qed

text \<open>
  Claim C5, as amended. When the stages before the guard succeed, the matrix circuit declares
  eigenvalue bounds with \<open>|lambda_min| < 1e-10\<close>, and \<open>lambda_max\<close> is not zero, the run
  substitutes \<open>max(1e-10, lambda_max / 1000)\<close>, prints the warning, and proceeds with the
  substituted value: \<open>delta\<close> is computed from it, the scaling becomes it, and in the exact
  reciprocal mode a circuit is returned whose phase estimation carries the evolution time
  \<open>2 pi delta / substituted value / 2 ^ neg_vals\<close>.
\<close>

theorem small_eigenvalue_substitution:
  assumes vec: "vector_stage ext vector = Inr (Some (nb, vc))"
    and mat: "matrix_stage ext matrix (Some (nb, vc)) = Inr mc"
    and nl: "register_nl nb (kappa_of mc) neg_vals = Inr nl"
    and eb: "eigs_bounds mc = Some (lambda_min, lambda_max)"
    and small: "\<bar>lambda_min\<bar> < 1 / 10 ^ 10"
    and nz: "lambda_max \<noteq> 0"
  shows "\<exists>delta.
      get_delta (nl - of_bool neg_vals) (max (1 / 10 ^ 10) (lambda_max / 1000)) lambda_max
        = Inr delta
    \<and> snd (construct_circuit ext s matrix vector neg_vals)
        = (s\<lparr>scaling := max (1 / 10 ^ 10) (lambda_max / 1000)\<rparr>,
           [SmallEigenvalueWarning lambda_min (max (1 / 10 ^ 10) (lambda_max / 1000))])
    \<and> (exact_reciprocal s \<longrightarrow>
          (\<exists>qc qs. fst (construct_circuit ext s matrix vector neg_vals) = Inr qc
             \<and> data qc ! 1
                 = (PhaseEstimation nl
                      ((set_tolerance s mc)\<lparr>evolution_time :=
                         Some (2 * pi * delta / max (1 / 10 ^ 10) (lambda_max / 1000)
                                 / 2 ^ (of_bool neg_vals :: nat))\<rparr>), qs)
             \<and> fst (data qc ! 2) = ExactReciprocal nl delta neg_vals))"
proof -
  let ?safe = "max (1 / 10 ^ 10) (lambda_max / 1000) :: real"
  have g: "lambda_min_guard lambda_min lambda_max = (?safe, [SmallEigenvalueWarning lambda_min ?safe])"
    by (rule lambda_min_guard_small [OF small])
  obtain delta where gd: "get_delta (nl - of_bool neg_vals) ?safe lambda_max = Inr delta"
    using nz by (simp add: get_delta_def)
  have gd': "get_delta (nl - of_bool neg_vals) (fst (lambda_min_guard lambda_min lambda_max))
      lambda_max = Inr delta"
    using gd by (simp add: g)
  have eb': "eigs_bounds (set_tolerance s mc) = Some (lambda_min, lambda_max)"
    using eb by simp
  let ?mc' = "(set_tolerance s mc)\<lparr>evolution_time :=
                 Some (2 * pi * delta / ?safe / 2 ^ (of_bool neg_vals :: nat))\<rparr>"
  let ?s' = "s\<lparr>scaling := ?safe\<rparr>"
  have e: "eig_stage s (set_tolerance s mc) nl neg_vals
      = (Inr (delta, ?mc'), ?s', [SmallEigenvalueWarning lambda_min ?safe])"
    using eig_stage_bounds_run [OF eb' gd', of s] by (simp add: g)
  have state: "snd (construct_circuit ext s matrix vector neg_vals)
      = (?s', [SmallEigenvalueWarning lambda_min ?safe])"
    using vec mat nl e
    by (simp add: construct_circuit_def Let_def split: sum.splits prod.splits)
  have exact: "\<exists>qc qs. fst (construct_circuit ext s matrix vector neg_vals) = Inr qc
             \<and> data qc ! 1 = (PhaseEstimation nl ?mc', qs)
             \<and> fst (data qc ! 2) = ExactReciprocal nl delta neg_vals"
    if ex: "exact_reciprocal s"
  proof -
    have ex': "exact_reciprocal ?s'" using ex by simp
    obtain qc where qc: "assemble ?s' vc ?mc' nb nl
        (ExactReciprocal nl delta neg_vals, 0, mc_num_ancillas mc) = Inr qc"
      using assemble_exact [OF ex', of vc ?mc' nb nl
          "(ExactReciprocal nl delta neg_vals, 0, mc_num_ancillas mc)"] by blast
    have "fst (construct_circuit ext s matrix vector neg_vals) = Inr qc"
      using construct_circuit_exact_bounds_run [OF vec mat nl eb gd' ex] qc by (simp add: g)
    moreover have "\<exists>qs. data qc ! 1 = (PhaseEstimation nl ?mc', qs)"
      and "fst (data qc ! 2) = ExactReciprocal nl delta neg_vals"
      using assemble_data(1) [OF qc] by simp_all
    ultimately show ?thesis by blast
  qed
  from gd state exact show ?thesis by blast
qed

theorem small_eigenvalue_substitution_witness:
  "\<exists>delta qc.
      get_delta 2 (1 / 10 ^ 10) (1 / 10 ^ 10) = Inr delta
    \<and> construct_circuit sample_externals (HHL_init (1 / 100) None)
         (MCircuit (sample_matrix None (Some (0, 1 / 10 ^ 10)))) sample_vector True
       = (Inr qc, (HHL_init (1 / 100) None)\<lparr>scaling := 1 / 10 ^ 10\<rparr>,
          [SmallEigenvalueWarning 0 (1 / 10 ^ 10)])
    \<and> fst (data qc ! 2) = ExactReciprocal 3 delta True"
proof -
  let ?s = "HHL_init (1 / 100) None"
  let ?mc = "sample_matrix None (Some (0, 1 / 10 ^ 10))"
  let ?vc = "UserGate \<lparr>uc_name = ''b'', uc_num_qubits = 1\<rparr>"
  have vec: "vector_stage sample_externals sample_vector = Inr (Some (1, ?vc))"
    by (rule sample_vector_stage)
  have mat: "matrix_stage sample_externals (MCircuit ?mc) (Some (1, ?vc)) = Inr ?mc"
    by (simp add: matrix_stage_def)
  have k: "kappa_of ?mc = 1" by (simp add: kappa_of_def sample_matrix_def)
  have eb: "eigs_bounds ?mc = Some (0, 1 / 10 ^ 10)" by (simp add: sample_matrix_def)
  have ex: "exact_reciprocal ?s" by (simp add: HHL_init_def)
  have nl: "register_nl 1 (kappa_of ?mc) True = Inr 3"
    unfolding k using register_nl_1_1 [of True] by simp
  have safe: "max (1 / 10 ^ 10) (1 / 10 ^ 10 / 1000) = (1 / 10 ^ 10 :: real)" by simp
  from small_eigenvalue_substitution [OF vec mat nl eb, of ?s] ex
  obtain delta qc qs where r:
    "get_delta (3 - of_bool True) (1 / 10 ^ 10) (1 / 10 ^ 10) = Inr delta"
    "snd (construct_circuit sample_externals ?s (MCircuit ?mc) sample_vector True)
        = (?s\<lparr>scaling := 1 / 10 ^ 10\<rparr>, [SmallEigenvalueWarning 0 (1 / 10 ^ 10)])"
    "fst (construct_circuit sample_externals ?s (MCircuit ?mc) sample_vector True) = Inr qc"
    "fst (data qc ! 2) = ExactReciprocal 3 delta True"
    unfolding safe by auto
  have run: "construct_circuit sample_externals ?s (MCircuit ?mc) sample_vector True
       = (Inr qc, ?s\<lparr>scaling := 1 / 10 ^ 10\<rparr>, [SmallEigenvalueWarning 0 (1 / 10 ^ 10)])"
    using r(2,3) by (simp add: prod_eq_iff)
  have d: "get_delta 2 (1 / 10 ^ 10) (1 / 10 ^ 10) = Inr delta"
    using r(1) by simp
  show ?thesis
    by (rule exI [of _ delta], rule exI [of _ qc])
      (simp only: run d r(4) simp_thms)
qed

text \<open>
  Claim C5 as stated fails when \<open>lambda_max\<close> is zero: the guard protects the division by
  \<open>lambda_min\<close>, but \<open>_get_delta\<close> divides by \<open>lambda_max\<close>. For declared bounds \<open>(0, 0)\<close> the
  warning is printed and the run then ends in an error.
\<close>

theorem small_eigenvalue_zero_max_counterexample:
  "construct_circuit sample_externals (HHL_init (1 / 100) None)
      (MCircuit (sample_matrix None (Some (0, 0)))) sample_vector True
     = (Inl NumericError, HHL_init (1 / 100) None, [SmallEigenvalueWarning 0 (1 / 10 ^ 10)])"
proof -
  have "register_nl 1 1 True = Inr 3"
    using register_nl_1_1 [of True] by simp
  then show ?thesis
    by (simp add: construct_circuit_def sample_vector_stage matrix_stage_def sample_matrix_def
        set_tolerance_def kappa_of_def eig_stage_def lambda_min_guard_def get_delta_def Let_def)
qed

section \<open>The norm estimator\<close>

lemma one_op_entry: "op_entry one_op i j = (if i = j \<and> i \<noteq> 0 then 1 else 0)"
  by (simp add: one_op_def op_div_def op_sub_def from_label_I_def from_label_Z_def)

lemma zero_op_entry: "op_entry zero_op i j = (if i = j \<and> i = 0 then 1 else 0)"
  by (simp add: zero_op_def op_div_def op_add_def from_label_I_def from_label_Z_def)

lemma op_dim_one_op [simp]: "op_dim one_op = 2"
  by (simp add: one_op_def op_div_def op_sub_def from_label_I_def)

lemma op_dim_zero_op [simp]: "op_dim zero_op = 2"
  by (simp add: zero_op_def op_div_def op_add_def from_label_I_def)

lemma op_dim_tensor [simp]: "op_dim (tensor a b) = op_dim a * op_dim b"
  by (simp add: tensor_def)

lemma foldl_tensor_snoc:
  "foldl tensor x (replicate (Suc n) z) = tensor (foldl tensor x (replicate n z)) z"
proof -
  have "replicate (Suc n) z = replicate n z @ [z]"
    by (simp add: replicate_append_same)
  then show ?thesis
    by (simp only: foldl_append) simp
qed

lemma op_dim_chain: "op_dim (foldl tensor x (replicate n zero_op)) = op_dim x * 2 ^ n"
  by (induction n) (simp_all only: foldl_tensor_snoc op_dim_tensor op_dim_zero_op, simp_all)

lemma norm_op_list_Suc: "norm_op_list (Suc n) = one_op # replicate n zero_op"
proof -
  have "map (\<lambda>i. if i = 0 then one_op else zero_op) [Suc 0..<Suc n] = replicate n zero_op"
    by (induction n) (simp_all add: replicate_append_same)
  then show ?thesis
    by (simp add: norm_op_list_def upt_conv_Cons del: upt_Suc)
qed

lemma tensor_all_norm_op_list:
  "tensor_all (norm_op_list n)
     = (if n = 0 then Inl IndexError else Inr (foldl tensor one_op (replicate (n - 1) zero_op)))"
proof (cases n)
  case 0
  then show ?thesis by (simp add: tensor_all_def norm_op_list_def)
next
  case (Suc m)
  then show ?thesis by (simp add: tensor_all_def norm_op_list_Suc)
qed

lemma diag_projector_one_op: "diag_projector one_op"
  by (simp add: diag_projector_def one_op_entry)

lemma diag_projector_zero_op: "diag_projector zero_op"
  by (simp add: diag_projector_def zero_op_entry)

lemma diag_projectorD:
  assumes "diag_projector ob" and "i < op_dim ob" and "j < op_dim ob"
  shows "i \<noteq> j \<Longrightarrow> op_entry ob i j = 0"
    and "op_entry ob i i = 0 \<or> op_entry ob i i = 1"
  using assms by (auto simp: diag_projector_def)

lemma diag_projector_tensor:
  assumes a: "diag_projector a" and b: "diag_projector b"
  shows "diag_projector (tensor a b)"
proof -
  have rng: "i div op_dim b < op_dim a \<and> i mod op_dim b < op_dim b"
    if "i < op_dim a * op_dim b" for i
  proof -
    from that have pos: "0 < op_dim b" by (cases "op_dim b") simp_all
    from that have "i div op_dim b < op_dim a"
      by (simp add: less_mult_imp_div_less mult.commute)
    with pos show ?thesis by simp
  qed
  have off: "op_entry (tensor a b) i j = 0"
    if "i < op_dim a * op_dim b" "j < op_dim a * op_dim b" "i \<noteq> j" for i j
  proof (cases "i div op_dim b = j div op_dim b")
    case True
    with that(3) have "i mod op_dim b \<noteq> j mod op_dim b"
      by (metis div_mult_mod_eq)
    then have "op_entry b (i mod op_dim b) (j mod op_dim b) = 0"
      using diag_projectorD(1) [OF b] rng [OF that(1)] rng [OF that(2)] by blast
    then show ?thesis by (simp add: tensor_def)
  next
    case False
    then have "op_entry a (i div op_dim b) (j div op_dim b) = 0"
      using diag_projectorD(1) [OF a] rng [OF that(1)] rng [OF that(2)] by blast
    then show ?thesis by (simp add: tensor_def)
  qed
  have on: "op_entry (tensor a b) i i = 0 \<or> op_entry (tensor a b) i i = 1"
    if "i < op_dim a * op_dim b" for i
  proof -
    have "op_entry a (i div op_dim b) (i div op_dim b) = 0
        \<or> op_entry a (i div op_dim b) (i div op_dim b) = 1"
      using diag_projectorD(2) [OF a] rng [OF that] by blast
    moreover have "op_entry b (i mod op_dim b) (i mod op_dim b) = 0
        \<or> op_entry b (i mod op_dim b) (i mod op_dim b) = 1"
      using diag_projectorD(2) [OF b] rng [OF that] by blast
    ultimately show ?thesis by (auto simp: tensor_def)
  qed
  from off on show ?thesis by (simp add: diag_projector_def)
qed

lemma diag_projector_chain:
  "diag_projector x \<Longrightarrow> diag_projector (foldl tensor x (replicate n zero_op))"
  by (induction n)
    (simp_all only: foldl_tensor_snoc diag_projector_tensor diag_projector_zero_op,
     simp_all)

lemma expectation_diag_projector:
  assumes "diag_projector ob" and "op_dim ob = 2 ^ sv_num_qubits sv"
  shows "\<exists>r. expectation_value sv ob = Inr (complex_of_real r) \<and> 0 \<le> r"
proof -
  let ?d = "op_dim ob"
  have inner: "(\<Sum>j<?d. cnj (amplitude sv i) * op_entry ob i j * amplitude sv j)
      = cnj (amplitude sv i) * op_entry ob i i * amplitude sv i" if "i < ?d" for i
  proof -
    have "(\<Sum>j<?d. cnj (amplitude sv i) * op_entry ob i j * amplitude sv j)
        = (\<Sum>j<?d. if j = i then cnj (amplitude sv i) * op_entry ob i i * amplitude sv i else 0)"
      using diag_projectorD(1) [OF assms(1) that] by (intro sum.cong) auto
    also have "\<dots> = cnj (amplitude sv i) * op_entry ob i i * amplitude sv i"
      using that by simp
    finally show ?thesis .
  qed
  have tm: "cnj (amplitude sv i) * op_entry ob i i * amplitude sv i
      = complex_of_real ((cmod (amplitude sv i))\<^sup>2 * Re (op_entry ob i i))" if "i < ?d" for i
  proof -
    have "op_entry ob i i = 0 \<or> op_entry ob i i = 1"
      by (rule diag_projectorD(2) [OF assms(1) that that])
    moreover have "cnj (amplitude sv i) * amplitude sv i
        = complex_of_real ((cmod (amplitude sv i))\<^sup>2)"
      by (simp only: complex_norm_square mult.commute)
    ultimately show ?thesis
      by auto
  qed
  have "(\<Sum>i<?d. \<Sum>j<?d. cnj (amplitude sv i) * op_entry ob i j * amplitude sv j)
      = (\<Sum>i<?d. complex_of_real ((cmod (amplitude sv i))\<^sup>2 * Re (op_entry ob i i)))"
    by (intro sum.cong refl) (simp add: inner tm)
  also have "\<dots> = complex_of_real (\<Sum>i<?d. (cmod (amplitude sv i))\<^sup>2 * Re (op_entry ob i i))"
    by simp
  finally have val: "expectation_value sv ob
      = Inr (complex_of_real (\<Sum>i<?d. (cmod (amplitude sv i))\<^sup>2 * Re (op_entry ob i i)))"
    using assms(2) by (simp add: expectation_value_def)
  have "0 \<le> Re (op_entry ob i i)" if "i < ?d" for i
    using diag_projectorD(2) [OF assms(1) that that] by auto
  then have "0 \<le> (\<Sum>i<?d. (cmod (amplitude sv i))\<^sup>2 * Re (op_entry ob i i))"
    by (intro sum_nonneg mult_nonneg_nonneg) simp_all
  with val show ?thesis by blast
qed

lemma norm_return_value:
  assumes "0 \<le> r"
  shows "Re (csqrt (complex_of_real r) / complex_of_real c) = sqrt r / c"
proof -
  have "csqrt (complex_of_real r) = complex_of_real (sqrt r)"
    using assms by simp
  then show ?thesis
    by (simp only: flip: of_real_divide) simp
qed

lemma construct_circuit_qregs:
  assumes "construct_circuit ext s matrix vector neg_vals = (Inr qc, s', out)"
  shows "\<exists>nb nl na.
           qregs qc = [QuantumRegister ''qb'' nb, QuantumRegister ''ql'' nl]
                      @ (if 0 < na then [AncillaRegister ''qa'' na] else [])
                      @ [QuantumRegister ''qf'' 1]"
proof -
  from assms obtain nb vc mc' nl recip where a: "assemble s' vc mc' nb nl recip = Inr qc"
    by (rule construct_circuit_stages)
  obtain g ra na where "recip = (g, ra, na)" by (cases recip)
  with a have "assemble s' vc mc' nb nl (g, ra, na) = Inr qc" by simp
  from assemble_qregs [OF this] show ?thesis by blast
qed

lemma num_qubits_assembled:
  assumes "qregs qc = [QuantumRegister ''qb'' nb, QuantumRegister ''ql'' nl]
           @ (if 0 < na then [AncillaRegister ''qa'' na] else []) @ [QuantumRegister ''qf'' 1]"
  shows "num_qubits qc = Suc (na + nl + nb)"
  using assms by (simp add: num_qubits_def)

lemma calculate_norm_value:
  assumes "sv_num_qubits (from_instruction ext qc) = Suc n"
  shows "\<exists>r. norm_observable ext qc = Inr (foldl tensor one_op (replicate n zero_op))
           \<and> expectation_value (from_instruction ext qc)
                (foldl tensor one_op (replicate n zero_op)) = Inr (complex_of_real r)
           \<and> norm_2 ext qc = Inr (complex_of_real r)
           \<and> 0 \<le> r"
proof -
  let ?ob = "foldl tensor one_op (replicate n zero_op)"
  have ob: "norm_observable ext qc = Inr ?ob"
    using assms by (simp add: norm_observable_def tensor_all_norm_op_list)
  have "diag_projector ?ob"
    by (rule diag_projector_chain [OF diag_projector_one_op])
  moreover have "op_dim ?ob = 2 ^ sv_num_qubits (from_instruction ext qc)"
    using assms by (simp add: op_dim_chain)
  ultimately obtain r where r:
    "expectation_value (from_instruction ext qc) ?ob = Inr (complex_of_real r)" "0 \<le> r"
    using expectation_diag_projector by blast
  then have "norm_2 ext qc = Inr (complex_of_real r)"
    by (simp add: norm_2_def ob)
  with ob r show ?thesis by blast
qed

text \<open>
  Claim C1, as amended. For every circuit \<open>qc\<close> that \<open>construct_circuit\<close> returns, simulated to
  a statevector over the circuit's qubits, the norm estimator builds the tensor chain that
  starts with the projector \<open>one = (I - Z)/2\<close>, whose factor acts on the most significant
  qubit (the flag qubit \<open>qf\<close>), followed by the projector \<open>zero = (I + Z)/2\<close> for each ancilla
  and eigenvalue qubit, followed by the factors \<open>rest\<close> for the \<open>nb\<close> solution qubits. It
  evaluates the expectation value \<open>n2\<close> of this operator against the statevector and returns
  the real part of \<open>sqrt(n2) / scaling\<close>, which equals \<open>sqrt(Re n2) / scaling\<close> (a zero scaling
  gives a non-finite float).
\<close>

theorem norm_estimator:
  assumes run: "construct_circuit ext s0 matrix vector neg_vals = (Inr qc, s1, out)"
    and sim: "sv_num_qubits (from_instruction ext qc) = num_qubits qc"
  shows "\<exists>nb nl na rest ob n2.
       qregs qc = [QuantumRegister ''qb'' nb, QuantumRegister ''ql'' nl]
                  @ (if 0 < na then [AncillaRegister ''qa'' na] else [])
                  @ [QuantumRegister ''qf'' 1]
     \<and> length rest = nb
     \<and> norm_observable ext qc = Inr ob
     \<and> ob = foldl tensor (foldl tensor one_op (replicate (na + nl) zero_op)) rest
     \<and> one_op = op_div (op_sub from_label_I from_label_Z) 2
     \<and> zero_op = op_div (op_add from_label_I from_label_Z) 2
     \<and> expectation_value (from_instruction ext qc) ob = Inr n2
     \<and> calculate_norm ext s qc
         = Inr (if scaling s = 0 then NonFinite
                else Finite (Re (csqrt n2 / complex_of_real (scaling s))))
     \<and> Re (csqrt n2 / complex_of_real (scaling s)) = sqrt (Re n2) / scaling s"
proof -
  from construct_circuit_qregs [OF run] obtain nb nl na where regs:
    "qregs qc = [QuantumRegister ''qb'' nb, QuantumRegister ''ql'' nl]
                  @ (if 0 < na then [AncillaRegister ''qa'' na] else [])
                  @ [QuantumRegister ''qf'' 1]"
    by blast
  have n: "sv_num_qubits (from_instruction ext qc) = Suc (na + nl + nb)"
    using sim num_qubits_assembled [OF regs] by simp
  from calculate_norm_value [OF n] obtain r where r:
    "norm_observable ext qc = Inr (foldl tensor one_op (replicate (na + nl + nb) zero_op))"
    "expectation_value (from_instruction ext qc)
        (foldl tensor one_op (replicate (na + nl + nb) zero_op)) = Inr (complex_of_real r)"
    "norm_2 ext qc = Inr (complex_of_real r)" "0 \<le> r"
    by blast
  let ?rest = "replicate nb zero_op"
  have split: "foldl tensor one_op (replicate (na + nl + nb) zero_op)
      = foldl tensor (foldl tensor one_op (replicate (na + nl) zero_op)) ?rest"
    by (simp only: replicate_add foldl_append)
  have ret: "calculate_norm ext s qc
      = Inr (if scaling s = 0 then NonFinite
             else Finite (Re (csqrt (complex_of_real r) / complex_of_real (scaling s))))"
    by (simp add: calculate_norm_def r(3))
  have val: "Re (csqrt (complex_of_real r) / complex_of_real (scaling s))
      = sqrt (Re (complex_of_real r)) / scaling s"
    using norm_return_value [OF r(4)] by simp
  have len: "length ?rest = nb" by simp
  from regs len r(1) [unfolded split] r(2) [unfolded split] ret val one_op_def zero_op_def
  show ?thesis by blast
qed

lemma map_first_rest: "map (\<lambda>i. if i = 0 then a else b) [0..<Suc n] = a # replicate n b"
proof -
  have "map (\<lambda>i. if i = 0 then a else b) [Suc 0..<Suc n] = replicate n b"
    by (induction n) (simp_all add: replicate_append_same)
  then show ?thesis
    by (simp add: upt_conv_Cons del: upt_Suc)
qed

lemma op_dim_chain_2:
  "op_dim z = 2 \<Longrightarrow> op_dim (foldl tensor x (replicate n z)) = op_dim x * 2 ^ n"
  by (induction n) (simp_all only: foldl_tensor_snoc op_dim_tensor, simp_all)

lemma chain_entry_top:
  "op_entry (foldl tensor one_op (replicate n zero_op)) (2 ^ n) (2 ^ n) = 1"
proof (induction n)
  case 0
  then show ?case by (simp add: one_op_entry)
next
  case (Suc n)
  have "op_entry (tensor (foldl tensor one_op (replicate n zero_op)) zero_op) (2 ^ Suc n) (2 ^ Suc n)
      = op_entry (foldl tensor one_op (replicate n zero_op)) (2 ^ n) (2 ^ n)
          * op_entry zero_op 0 0"
    by (simp add: tensor_def)
  then show ?case
    by (simp only: foldl_tensor_snoc Suc.IH) (simp add: zero_op_entry)
qed

lemma spec_chain_entry_even:
  "op_entry (foldl tensor x (replicate (Suc n) spec_zero)) (2 * k) (2 * k) = 0"
proof -
  have "op_entry spec_zero 0 0 = 0"
    by (simp add: spec_zero_def op_div_def op_sub_def from_label_I_def from_label_Z_def)
  moreover have "op_dim spec_zero = 2"
    by (simp add: spec_zero_def op_div_def op_sub_def from_label_I_def)
  ultimately show ?thesis
    by (simp only: foldl_tensor_snoc) (simp add: tensor_def)
qed

lemma expectation_basis_state:
  assumes "op_dim ob = 2 ^ n" and "k < 2 ^ n"
  shows "expectation_value \<lparr>sv_num_qubits = n, amplitude = (\<lambda>i. if i = k then 1 else 0)\<rparr> ob
           = Inr (op_entry ob k k)"
proof -
  have inner: "(\<Sum>j<2 ^ n. cnj (if i = k then 1 else 0) * op_entry ob i j * (if j = k then 1 else 0))
      = (if i = k then op_entry ob k k else 0)" for i :: nat
  proof -
    have "(\<Sum>j<2 ^ n. cnj (if i = k then 1 else 0) * op_entry ob i j * (if j = k then 1 else 0))
        = (\<Sum>j<2 ^ n. if j = k then cnj (if i = k then 1 else 0) * op_entry ob i k else 0)"
      by (intro sum.cong) auto
    also have "\<dots> = cnj (if i = k then 1 else 0) * op_entry ob i k"
      using assms(2) by simp
    finally show ?thesis by simp
  qed
  have "(\<Sum>i<2 ^ n. \<Sum>j<2 ^ n.
           cnj (if i = k then 1 else 0) * op_entry ob i j * (if j = k then 1 else 0))
      = (\<Sum>i<2 ^ n. if i = k then op_entry ob k k else 0)"
    by (simp only: inner)
  also have "\<dots> = op_entry ob k k"
    using assms(2) by simp
  finally show ?thesis
    using assms(1) by (simp add: expectation_value_def)
qed

lemma sample_run:
  "construct_circuit sample_externals (HHL_init (1 / 100) None)
      (MCircuit (sample_matrix None None)) sample_vector True
     = (Inr sample_circuit, HHL_init (1 / 100) None, [ScalingNotice])"
    "qregs sample_circuit
     = [QuantumRegister ''qb'' 1, QuantumRegister ''ql'' 3, QuantumRegister ''qf'' 1]"
proof -
  let ?s = "HHL_init (1 / 100) None"
  let ?mc = "sample_matrix None None"
  let ?vc = "UserGate \<lparr>uc_name = ''b'', uc_num_qubits = 1\<rparr>"
  have k: "kappa_of ?mc = 1" by (simp add: kappa_of_def sample_matrix_def)
  have eb: "eigs_bounds ?mc = None" by (simp add: sample_matrix_def)
  have ex: "exact_reciprocal ?s" by (simp add: HHL_init_def)
  have an: "mc_num_ancillas ?mc = 0" by (simp add: sample_matrix_def)
  have nl: "register_nl 1 (kappa_of ?mc) True = Inr 3"
    unfolding k using register_nl_1_1 [of True] by simp
  obtain qc where qc: "assemble ?s ?vc (set_tolerance ?s ?mc) 1 3
      (ExactReciprocal 3 (1 / 2 ^ 3) True, 0, mc_num_ancillas ?mc) = Inr qc"
    using assemble_exact [OF ex] by blast
  have run: "construct_circuit sample_externals ?s (MCircuit ?mc) sample_vector True
      = (Inr qc, ?s, [ScalingNotice])"
    using construct_circuit_no_bounds_run [OF eb nl ex, of sample_externals] qc by simp
  then have "sample_circuit = qc"
    by (simp add: sample_circuit_def)
  with run show "construct_circuit sample_externals ?s (MCircuit ?mc) sample_vector True
      = (Inr sample_circuit, ?s, [ScalingNotice])" by simp
  show "qregs sample_circuit
     = [QuantumRegister ''qb'' 1, QuantumRegister ''ql'' 3, QuantumRegister ''qf'' 1]"
    using assemble_qregs [OF qc] an \<open>sample_circuit = qc\<close> by simp
qed

lemma sample_statevector:
  "from_instruction sample_externals sample_circuit
     = \<lparr>sv_num_qubits = 5, amplitude = (\<lambda>i. if i = 16 then 1 else 0)\<rparr>"
proof -
  have "num_qubits sample_circuit = 5"
    by (simp add: num_qubits_def sample_run(2))
  then show ?thesis
    by (simp add: sample_externals_def)
qed

theorem norm_estimator_witness:
  "\<exists>ob n2.
       sv_num_qubits (from_instruction sample_externals sample_circuit) = num_qubits sample_circuit
     \<and> norm_observable sample_externals sample_circuit = Inr ob
     \<and> ob = foldl tensor (foldl tensor one_op (replicate 3 zero_op)) (replicate 1 zero_op)
     \<and> expectation_value (from_instruction sample_externals sample_circuit) ob = Inr n2
     \<and> calculate_norm sample_externals (HHL_init (1 / 100) None) sample_circuit
         = Inr (Finite (sqrt (Re n2) / 1))"
proof -
  let ?s = "HHL_init (1 / 100) None"
  have sim: "sv_num_qubits (from_instruction sample_externals sample_circuit)
      = num_qubits sample_circuit"
    by (simp add: sample_externals_def)
  have sc: "scaling ?s = 1" by (simp add: HHL_init_def)
  from norm_estimator [OF sample_run(1) sim, of ?s]
  obtain nb nl na rest ob n2 where r:
    "qregs sample_circuit = [QuantumRegister ''qb'' nb, QuantumRegister ''ql'' nl]
                  @ (if 0 < na then [AncillaRegister ''qa'' na] else [])
                  @ [QuantumRegister ''qf'' 1]"
    "length rest = nb"
    "norm_observable sample_externals sample_circuit = Inr ob"
    "ob = foldl tensor (foldl tensor one_op (replicate (na + nl) zero_op)) rest"
    "expectation_value (from_instruction sample_externals sample_circuit) ob = Inr n2"
    "calculate_norm sample_externals ?s sample_circuit
         = Inr (Finite (Re (csqrt n2 / complex_of_real (scaling ?s))))"
    "Re (csqrt n2 / complex_of_real (scaling ?s)) = sqrt (Re n2) / scaling ?s"
    unfolding sc by auto
  from r(1) have "nb = 1" "nl = 3" "na = 0"
    unfolding sample_run(2) by (auto split: if_splits)
  then have ob: "ob = foldl tensor (foldl tensor one_op (replicate 3 zero_op)) rest"
    using r(4) by simp
  from r(3) have "ob = foldl tensor one_op (replicate 4 zero_op)"
    using sim by (simp add: norm_observable_def tensor_all_norm_op_list num_qubits_def sample_run(2))
  then have ob': "ob = foldl tensor (foldl tensor one_op (replicate 3 zero_op)) (replicate 1 zero_op)"
    by (simp add: numeral_Bit0 numeral_Bit1)
  have ret: "calculate_norm sample_externals ?s sample_circuit = Inr (Finite (sqrt (Re n2) / 1))"
    using r(6,7) by (simp add: sc)
  show ?thesis
    by (rule exI [of _ ob], rule exI [of _ n2]) (use sim r(3) ob' r(5) ret in blast)
qed

text \<open>
  Claim C1 as stated has the two projectors interchanged. The specification's estimator,
  with \<open>one = (I + Z)/2\<close> first and \<open>zero = (I - Z)/2\<close> on the remaining qubits, gives 0 on the
  basis state in which only the flag qubit is set, where the code gives 1.
\<close>

theorem norm_projectors_counterexample:
  "fst (construct_circuit sample_externals (HHL_init (1 / 100) None)
          (MCircuit (sample_matrix None None)) sample_vector True) = Inr sample_circuit
   \<and> one_op \<noteq> spec_one
   \<and> calculate_norm sample_externals (HHL_init (1 / 100) None) sample_circuit = Inr (Finite 1)
   \<and> spec_calculate_norm sample_externals (HHL_init (1 / 100) None) sample_circuit = Inr 0"
proof -
  let ?s = "HHL_init (1 / 100) None"
  let ?sv = "\<lparr>sv_num_qubits = 5, amplitude = (\<lambda>i. if i = (16::nat) then (1::complex) else 0)\<rparr>"
  have sc: "scaling ?s = 1" by (simp add: HHL_init_def)
  have "op_entry one_op 0 0 \<noteq> op_entry spec_one 0 0"
    by (simp add: one_op_entry spec_one_def op_div_def op_add_def from_label_I_def from_label_Z_def)
  then have ne: "one_op \<noteq> spec_one" by auto
  let ?ob = "foldl tensor one_op (replicate 4 zero_op)"
  have "expectation_value ?sv ?ob = Inr (op_entry ?ob 16 16)"
    by (rule expectation_basis_state) (simp_all add: op_dim_chain)
  moreover have "op_entry ?ob 16 16 = 1"
    using chain_entry_top [of 4] by simp
  ultimately have "norm_2 sample_externals sample_circuit = Inr 1"
    by (simp add: norm_2_def norm_observable_def sample_statevector tensor_all_norm_op_list)
  then have code: "calculate_norm sample_externals ?s sample_circuit = Inr (Finite 1)"
    by (simp add: calculate_norm_def sc)
  let ?sp = "foldl tensor spec_one (replicate 4 spec_zero)"
  have d2: "op_dim spec_zero = 2" "op_dim spec_one = 2"
    by (simp_all add: spec_zero_def spec_one_def op_div_def op_sub_def op_add_def from_label_I_def)
  have "expectation_value ?sv ?sp = Inr (op_entry ?sp 16 16)"
    by (rule expectation_basis_state) (simp_all add: op_dim_chain_2 d2)
  moreover have "op_entry ?sp 16 16 = 0"
    using spec_chain_entry_even [of spec_one 3 8] by simp
  moreover have "tensor_all (map (\<lambda>i. if i = 0 then spec_one else spec_zero) [0..<5]) = Inr ?sp"
    using map_first_rest [of spec_one spec_zero 4] by (simp add: tensor_all_def)
  ultimately have spec: "spec_calculate_norm sample_externals ?s sample_circuit = Inr 0"
    by (simp add: spec_calculate_norm_def sample_statevector sc)
  from sample_run(1) ne code spec show ?thesis by simp
qed

section \<open>Runs without eigenvalue bounds\<close>

lemma sample_calculate_norm:
  "calculate_norm sample_externals (HHL_init (1 / 100) None) sample_circuit = Inr (Finite 1)"
proof -
  let ?sv = "\<lparr>sv_num_qubits = 5, amplitude = (\<lambda>i. if i = (16::nat) then (1::complex) else 0)\<rparr>"
  let ?ob = "foldl tensor one_op (replicate 4 zero_op)"
  have "expectation_value ?sv ?ob = Inr (op_entry ?ob 16 16)"
    by (rule expectation_basis_state) (simp_all add: op_dim_chain)
  moreover have "op_entry ?ob 16 16 = 1"
    using chain_entry_top [of 4] by simp
  ultimately have "norm_2 sample_externals sample_circuit = Inr 1"
    by (simp add: norm_2_def norm_observable_def sample_statevector tensor_all_norm_op_list)
  then show ?thesis
    by (simp add: calculate_norm_def HHL_init_def)
qed

lemma solve_success:
  assumes "solve ext s matrix vector req oc pp = (Inr res, s', out)"
  shows "\<exists>qc nrm. construct_circuit ext s matrix vector True = (Inr qc, s', out)
           \<and> calculate_norm ext s' qc = Inr nrm
           \<and> state res = qc \<and> euclidean_norm res = nrm"
  using assms
  by (auto simp: solve_def Let_def
      split: if_splits sum.splits prod.splits observable_request.splits)

lemma calculate_norm_success:
  assumes "calculate_norm ext s qc = Inr nrm"
  shows "\<exists>n2. norm_2 ext qc = Inr n2
           \<and> nrm = (if scaling s = 0 then NonFinite
                    else Finite (Re (csqrt n2 / complex_of_real (scaling s))))"
  using assms by (auto simp: calculate_norm_def split: sum.splits)

text \<open>
  Claim C10. For a matrix circuit that declares no eigenvalue bounds, every run of
  \<open>construct_circuit\<close> that returns a circuit uses \<open>delta = 1 / 2 ^ nl\<close> in the reciprocal
  circuit, prints exactly the notice that the solution is calculated up to a scaling
  factor, and leaves the solver, and so its scaling, unchanged. Hence \<open>solve\<close> on a freshly
  created solver, whose scaling is 1, ends with scaling 1 and returns as Euclidean norm the
  real part of \<open>sqrt(n2) / 1\<close>, where \<open>n2\<close> is the expectation value of the norm observable.
\<close>

theorem no_eigenvalue_bounds_scaling:
  assumes vec: "vector_stage ext vector = Inr (Some (nb, vc))"
    and mat: "matrix_stage ext matrix (Some (nb, vc)) = Inr mc"
    and none: "eigs_bounds mc = None"
  shows "(\<forall>qc s' out.
            construct_circuit ext s matrix vector neg_vals = (Inr qc, s', out) \<longrightarrow>
              s' = s \<and> out = [ScalingNotice]
            \<and> (if exact_reciprocal s
               then fst (data qc ! 2)
                      = ExactReciprocal (reg_size (qregs qc ! 1))
                          (1 / 2 ^ reg_size (qregs qc ! 1)) neg_vals
               else \<exists>d b. fst (data qc ! 2)
                      = PiecewiseChebyshev (\<lambda>x. arcsin (1 / 2 ^ reg_size (qregs qc ! 1) / x)) d b
                          (reg_size (qregs qc ! 1))))
       \<and> (\<forall>res s' out.
            solve ext (HHL_init eps expect) matrix vector req oc pp = (Inr res, s', out) \<longrightarrow>
              scaling s' = 1
            \<and> (\<exists>n2. norm_2 ext (state res) = Inr n2
                    \<and> euclidean_norm res = Finite (Re (csqrt n2 / complex_of_real 1))))"
proof -
  have cc: "s' = s \<and> out = [ScalingNotice]
            \<and> (if exact_reciprocal s
               then fst (data qc ! 2)
                      = ExactReciprocal (reg_size (qregs qc ! 1))
                          (1 / 2 ^ reg_size (qregs qc ! 1)) neg_vals
               else \<exists>d b. fst (data qc ! 2)
                      = PiecewiseChebyshev (\<lambda>x. arcsin (1 / 2 ^ reg_size (qregs qc ! 1) / x)) d b
                          (reg_size (qregs qc ! 1)))"
    if run: "construct_circuit ext s matrix vector neg_vals = (Inr qc, s', out)"
    for qc s' out s neg_vals
  proof -
    from run vec mat obtain nl delta mc' g ra na where st:
      "eig_stage s (set_tolerance s mc) nl neg_vals = (Inr (delta, mc'), s', out)"
      "reciprocal_stage ext s' mc' nb nl delta (kappa_of mc) neg_vals = Inr (g, ra, na)"
      "assemble s' vc mc' nb nl (g, ra, na) = Inr qc"
      by (rule construct_circuit_parts)
    have "eigs_bounds (set_tolerance s mc) = None" using none by simp
    from eig_stage_none [OF this, of s nl neg_vals] st(1)
    have e: "delta = 1 / 2 ^ nl" "s' = s" "out = [ScalingNotice]" by simp_all
    have nl: "reg_size (qregs qc ! 1) = nl"
      using assemble_qregs [OF st(3)] by simp
    have d2: "fst (data qc ! 2) = g"
      using assemble_data(1) [OF st(3)] by simp
    have "if exact_reciprocal s then g = ExactReciprocal nl (1 / 2 ^ nl) neg_vals
          else \<exists>d b. g = PiecewiseChebyshev (\<lambda>x. arcsin (1 / 2 ^ nl / x)) d b nl"
      using reciprocal_stage_gate [OF st(2)] e by (auto split: if_splits)
    with e show ?thesis unfolding nl d2 by simp
  qed
  have sv: "scaling s' = 1
            \<and> (\<exists>n2. norm_2 ext (state res) = Inr n2
                    \<and> euclidean_norm res = Finite (Re (csqrt n2 / complex_of_real 1)))"
    if run: "solve ext (HHL_init eps expect) matrix vector req oc pp = (Inr res, s', out)"
    for res s' out
  proof -
    from solve_success [OF run] obtain qc nrm where r:
      "construct_circuit ext (HHL_init eps expect) matrix vector True = (Inr qc, s', out)"
      "calculate_norm ext s' qc = Inr nrm" "state res = qc" "euclidean_norm res = nrm"
      by blast
    from cc [OF r(1)] have s': "s' = HHL_init eps expect" by simp
    then have sc: "scaling s' = 1" by (simp add: HHL_init_def)
    from calculate_norm_success [OF r(2)] obtain n2 where
      "norm_2 ext qc = Inr n2" "nrm = Finite (Re (csqrt n2 / complex_of_real 1))"
      unfolding sc by auto
    with r(3,4) sc show ?thesis by simp
  qed
  from cc sv show ?thesis by blast
qed

theorem no_eigenvalue_bounds_scaling_witness:
  "construct_circuit sample_externals (HHL_init (1 / 100) None)
      (MCircuit (sample_matrix None None)) sample_vector True
     = (Inr sample_circuit, HHL_init (1 / 100) None, [ScalingNotice])
   \<and> fst (data sample_circuit ! 2) = ExactReciprocal 3 (1 / 8) True
   \<and> solve sample_externals (HHL_init (1 / 100) None)
        (MCircuit (sample_matrix None None)) sample_vector NoObservable None None
     = (Inr \<lparr>state = sample_circuit, euclidean_norm = Finite 1, observable = None,
             circuit_results = None\<rparr>,
        HHL_init (1 / 100) None, [ScalingNotice])
   \<and> scaling (HHL_init (1 / 100) None) = 1"
proof -
  let ?s = "HHL_init (1 / 100) None"
  let ?mc = "sample_matrix None None"
  let ?vc = "UserGate \<lparr>uc_name = ''b'', uc_num_qubits = 1\<rparr>"
  have vec: "vector_stage sample_externals sample_vector = Inr (Some (1, ?vc))"
    by (rule sample_vector_stage)
  have mat: "matrix_stage sample_externals (MCircuit ?mc) (Some (1, ?vc)) = Inr ?mc"
    by (simp add: matrix_stage_def)
  have eb: "eigs_bounds ?mc = None" by (simp add: sample_matrix_def)
  have ex: "exact_reciprocal ?s" by (simp add: HHL_init_def)
  have sol: "solve sample_externals ?s (MCircuit ?mc) sample_vector NoObservable None None
     = (Inr \<lparr>state = sample_circuit, euclidean_norm = Finite 1, observable = None,
             circuit_results = None\<rparr>, ?s, [ScalingNotice])"
    by (simp add: solve_def sample_run(1) sample_calculate_norm)
  have nl: "reg_size (qregs sample_circuit ! Suc 0) = 3"
    by (simp add: sample_run(2))
  from no_eigenvalue_bounds_scaling [OF vec mat eb, of ?s True "1 / 100" None NoObservable None None]
    sample_run(1) sol ex
  have "fst (data sample_circuit ! 2) = ExactReciprocal 3 (1 / 2 ^ 3) True
      \<and> scaling ?s = 1"
    by (auto simp: nl)
  with sample_run(1) sol show ?thesis by simp
qed

section \<open>The Chebyshev reciprocal\<close>

lemma breakpoints_loop_append:
  "breakpoints_loop a nv m (xs @ ys) = breakpoints_loop a nv m xs @ breakpoints_loop a nv m ys"
  by (induction xs) simp_all

lemma breakpoints_loop_prefix:
  "int k < m \<Longrightarrow> breakpoints_loop a nv m [0..<k] = map (\<lambda>i. a * 5 ^ i) [0..<k]"
proof (induction k)
  case 0
  then show ?case by simp
next
  case (Suc k)
  then have "int k \<noteq> m - 1" "int k < m" by simp_all
  with Suc.IH show ?case
    by (simp add: breakpoints_loop_append)
qed

lemma breakpoints_loop_all:
  "breakpoints_loop a nv m [0..<nat m]
     = map (\<lambda>i. a * 5 ^ i) [0..<nat m] @ (if 1 \<le> m then [nv - 1] else [])"
proof (cases "1 \<le> m")
  case False
  then show ?thesis by simp
next
  case True
  define k where "k = nat m - 1"
  have k: "nat m = Suc k" "int k = m - 1"
    using True unfolding k_def by linarith+
  then have "int k < m" by simp
  from breakpoints_loop_prefix [OF this, of a nv] k True show ?thesis
    by (simp add: breakpoints_loop_append)
qed

lemma chebyshev_breakpoints_eq:
  "chebyshev_breakpoints nl a
     = map (\<lambda>i. a * 5 ^ i) [0..<nat (chebyshev_num_intervals nl a)]
       @ (if 1 \<le> chebyshev_num_intervals nl a then [2 ^ nl - 1] else [])"
  by (simp add: chebyshev_breakpoints_def Let_def breakpoints_loop_all)

lemma two_powr_two_thirds: "3 / 2 \<le> (2::real) powr (2 / 3)"
proof -
  have "(27 / 8 :: real) = (3 / 2) powr 3" by (simp add: power3_eq_cube)
  then have "(27 / 8 :: real) powr (1 / 3) = ((3 / 2) powr 3) powr (1 / 3)"
    by (simp only:)
  also have "\<dots> = (3 / 2) powr (3 * (1 / 3))"
    by (rule powr_powr)
  finally have e1: "(27 / 8 :: real) powr (1 / 3) = 3 / 2" by simp
  have "(4 :: real) = 2 powr 2" by simp
  then have "(4 :: real) powr (1 / 3) = (2 powr 2) powr (1 / 3)"
    by (simp only:)
  also have "\<dots> = 2 powr (2 * (1 / 3))"
    by (rule powr_powr)
  finally have e2: "(4 :: real) powr (1 / 3) = 2 powr (2 / 3)" by simp
  have "(27 / 8 :: real) powr (1 / 3) \<le> 4 powr (1 / 3)"
    by (rule powr_mono2) simp_all
  then show ?thesis by (simp only: e1 e2)
qed

lemma py_round_ge_2:
  assumes "3 / 2 \<le> x"
  shows "2 \<le> py_round x"
proof (cases "frac x = 1 / 2")
  case True
  have one: "1 \<le> \<lfloor>x\<rfloor>" using assms by linarith
  show ?thesis
  proof (cases "even \<lfloor>x\<rfloor>")
    case even: True
    with one have "2 \<le> \<lfloor>x\<rfloor>" by presburger
    with True even show ?thesis by (simp add: py_round_def)
  next
    case False
    with True one show ?thesis by (simp add: py_round_def)
  qed
next
  case False
  have "2 \<le> \<lfloor>x + 1 / 2\<rfloor>" using assms by linarith
  then show ?thesis
    using False by (simp add: py_round_def)
qed

lemma chebyshev_a_ge_2:
  assumes "1 \<le> nl"
  shows "2 \<le> chebyshev_a nl"
proof -
  have "(2::real) ^ 1 \<le> 2 ^ nl"
    using assms by (intro power_increasing) simp_all
  then have "(2::real) powr (2 / 3) \<le> (2 ^ nl) powr (2 / 3)"
    by (intro powr_mono2) simp_all
  with two_powr_two_thirds have "3 / 2 \<le> real (2 ^ nl) powr (2 / 3)"
    by simp
  then show ?thesis
    unfolding chebyshev_a_def by (rule py_round_ge_2)
qed

lemma chebyshev_r_no_abs:
  assumes "0 \<le> delta" "delta < 1" "2 \<le> a"
  shows "chebyshev_r delta a
           = 2 * delta / real_of_int a + sqrt (1 - (2 * delta / real_of_int a)\<^sup>2)"
    and "0 < chebyshev_r delta a"
proof -
  let ?x = "2 * delta / real_of_int a"
  have a: "2 \<le> real_of_int a" using assms(3) by simp
  have x0: "0 \<le> ?x" using assms(1) a by simp
  have "2 * delta < real_of_int a" using assms(2) a by linarith
  then have x1: "?x < 1" using a by (simp add: divide_less_eq)
  have "?x\<^sup>2 < 1"
    using x0 x1 by (simp only: abs_square_less_1)
  then have pos: "0 < 1 - ?x\<^sup>2" by simp
  then show "chebyshev_r delta a = ?x + sqrt (1 - ?x\<^sup>2)"
    by (simp add: chebyshev_r_def)
  have "0 < sqrt (1 - ?x\<^sup>2)" using pos by simp
  with x0 show "0 < chebyshev_r delta a"
    using pos by (simp add: chebyshev_r_def add_nonneg_pos)
qed

lemma eig_stage_delta_range:
  assumes "eig_stage s mc nl neg_vals = (Inr (delta, mc'), s', out)" and "1 \<le> nl"
  shows "0 \<le> delta \<and> delta < 1"
proof (cases "eigs_bounds mc")
  case None
  from eig_stage_none [OF this, of s nl neg_vals] assms(1) have d: "delta = 1 / 2 ^ nl" by simp
  have "(2::real) ^ 1 \<le> 2 ^ nl"
    using assms(2) by (intro power_increasing) simp_all
  then have "1 / (2::real) ^ nl \<le> 1 / 2"
    by (simp add: field_simps)
  then show ?thesis unfolding d by simp
next
  case (Some b)
  obtain l0 lmax where "b = (l0, lmax)" by (cases b)
  with Some have "eigs_bounds mc = Some (l0, lmax)" by simp
  from eig_stage_bounds(1) [OF this assms(1)]
  have "get_delta (nl - of_bool neg_vals) (fst (lambda_min_guard l0 lmax)) lmax = Inr delta" .
  then have "delta = lamb_min_rep 0 (binstr (nl - of_bool neg_vals) (fst (lambda_min_guard l0 lmax)) lmax)"
    by (auto simp: get_delta_def split: if_splits)
  then show ?thesis
    using lamb_min_rep_nonneg [of 0] lamb_min_rep_less_one by simp
qed

lemma register_nl_positive:
  assumes "register_nl nb kappa neg_vals = Inr nl"
  shows "1 \<le> nl"
proof -
  have "int nl = max (int nb + 1) \<lceil>log 2 (kappa + 1)\<rceil> + of_bool neg_vals"
    by (rule register_nl_value [OF assms])
  moreover have "1 \<le> max (int nb + 1) \<lceil>log 2 (kappa + 1)\<rceil> + of_bool neg_vals"
    by (cases neg_vals) simp_all
  ultimately show ?thesis by linarith
qed

lemma reciprocal_stage_chebyshev:
  assumes "reciprocal_stage ext s mc nb nl delta kappa neg_vals = Inr (g, ra, na)"
    and "\<not> exact_reciprocal s"
  shows "g = PiecewiseChebyshev (\<lambda>x. arcsin (delta / x))
               (chebyshev_degree s nb kappa (chebyshev_r delta (chebyshev_a nl)))
               (chebyshev_breakpoints nl (chebyshev_a nl)) nl"
    and "ra = chebyshev_num_ancillas ext
               (chebyshev_degree s nb kappa (chebyshev_r delta (chebyshev_a nl)))
               (chebyshev_breakpoints nl (chebyshev_a nl)) nl"
    and "na = max (mc_num_ancillas mc) ra"
  using assms by (auto simp: reciprocal_stage_def Let_def split: if_splits)

lemma assemble_num_ancillas:
  assumes "assemble s vc mc nb nl (g, ra, na) = Inr qc"
  shows "num_ancillas qc = na"
  using assemble_qregs [OF assms] by (simp add: num_ancillas_def)

lemma degree_bound_solver:
  "epsilon_r s' = epsilon_r s \<Longrightarrow> chebyshev_degree s' nb kappa r = chebyshev_degree s nb kappa r"
  by (simp add: chebyshev_degree_def degree_bound_def)

lemma degree_bound_pos:
  assumes "0 < epsilon_r s" and "0 \<le> kappa" and "epsilon_r s \<le> 2 * kappa"
  shows "0 < degree_bound s kappa r"
proof -
  have "0 \<le> 1623 / 100 * sqrt ((ln r)\<^sup>2 + (pi / 2)\<^sup>2) * kappa * (2 * kappa - epsilon_r s)"
    using assms by (intro mult_nonneg_nonneg) simp_all
  then have "0 \<le> (1623 / 100 * sqrt ((ln r)\<^sup>2 + (pi / 2)\<^sup>2) * kappa * (2 * kappa - epsilon_r s))
                 / epsilon_r s"
    using assms(1) by (intro divide_nonneg_pos)
  then show ?thesis
    unfolding degree_bound_def by linarith
qed

lemma py_round_eq:
  assumes "real_of_int n - 1 / 2 < x" and "x < real_of_int n + 1 / 2"
  shows "py_round x = n"
proof -
  have fl: "\<lfloor>x + 1 / 2\<rfloor> = n"
    using assms by (intro floor_unique) linarith+
  have "frac x \<noteq> 1 / 2"
  proof
    assume "frac x = 1 / 2"
    then have "x = real_of_int \<lfloor>x\<rfloor> + 1 / 2"
      by (simp add: frac_def)
    with assms have "real_of_int n - 1 < real_of_int \<lfloor>x\<rfloor>" "real_of_int \<lfloor>x\<rfloor> < real_of_int n"
      by linarith+
    then have "n - 1 < \<lfloor>x\<rfloor>" "\<lfloor>x\<rfloor> < n"
      by linarith+
    then show False by linarith
  qed
  with fl show ?thesis by (simp add: py_round_def)
qed

lemma cube_root: 
  assumes "0 < x" shows "(x ^ 3) powr (1 / 3) = (x::real)"
proof -
  have "(x ^ 3) powr (1 / 3) = (x powr 3) powr (1 / 3)"
    using assms by simp
  also have "\<dots> = x powr (3 * (1 / 3))"
    by (rule powr_powr)
  finally show ?thesis using assms by simp
qed

lemma base_point_cube: "(((2::real) ^ nl) powr (2 / 3)) ^ 3 = 4 ^ nl"
proof -
  have "(((2::real) ^ nl) powr (2 / 3)) ^ 3 = (((2::real) ^ nl) powr (2 / 3)) powr 3"
    by simp
  also have "\<dots> = ((2::real) ^ nl) powr (2 / 3 * 3)"
    by (rule powr_powr)
  also have "\<dots> = ((2::real) ^ nl) ^ 2"
    by simp
  also have "\<dots> = (2 * 2) ^ nl"
    by (simp only: power2_eq_square power_mult_distrib)
  finally show ?thesis by simp
qed

lemma base_point_no_tie: "frac (((2::real) ^ nl) powr (2 / 3)) \<noteq> 1 / 2"
proof
  let ?x = "((2::real) ^ nl) powr (2 / 3)"
  assume "frac ?x = 1 / 2"
  then have "2 * ?x = real_of_int (2 * \<lfloor>?x\<rfloor> + 1)"
    by (simp add: frac_def)
  then have "(2 * ?x) ^ 3 = real_of_int ((2 * \<lfloor>?x\<rfloor> + 1) ^ 3)"
    by simp
  moreover have "(2 * ?x) ^ 3 = real_of_int (8 * 4 ^ nl)"
    by (simp only: power_mult_distrib base_point_cube) simp
  ultimately have "real_of_int ((2 * \<lfloor>?x\<rfloor> + 1) ^ 3) = real_of_int (8 * 4 ^ nl)"
    by simp
  then have "(2 * \<lfloor>?x\<rfloor> + 1) ^ 3 = (8 * 4 ^ nl :: int)"
    by (simp only: of_int_eq_iff)
  moreover have "odd ((2 * \<lfloor>?x\<rfloor> + 1) ^ 3)" by simp
  moreover have "even (8 * 4 ^ nl :: int)" by simp
  ultimately show False by simp
qed

lemma chebyshev_a_round: "chebyshev_a nl = round (((2::real) ^ nl) powr (2 / 3))"
proof -
  have "py_round (((2::real) ^ nl) powr (2 / 3)) = \<lfloor>((2::real) ^ nl) powr (2 / 3) + 1 / 2\<rfloor>"
    unfolding py_round_def using base_point_no_tie [of nl] by (simp only: if_False)
  then show ?thesis
    by (simp add: chebyshev_a_def round_def)
qed

lemma chebyshev_a_upper:
  assumes "3 \<le> nl"
  shows "real_of_int (chebyshev_a nl) < 2 ^ nl - 1"
proof -
  let ?x = "((2::real) ^ nl) powr (2 / 3)"
  have big: "(8::real) \<le> 2 ^ nl"
    using power_increasing [OF assms, of "2::real"] by simp
  have "(2::real) = (2 ^ 3) powr (1 / 3)"
    using cube_root [of 2] by simp
  also have "\<dots> \<le> ((2::real) ^ nl) powr (1 / 3)"
    using big by (intro powr_mono2) simp_all
  finally have root: "2 \<le> ((2::real) ^ nl) powr (1 / 3)" .
  have "?x * ((2::real) ^ nl) powr (1 / 3) = ((2::real) ^ nl) powr (2 / 3 + 1 / 3)"
    by (simp only: powr_add)
  then have prod: "?x * ((2::real) ^ nl) powr (1 / 3) = 2 ^ nl"
    by simp
  have "0 \<le> ?x" by simp
  then have "?x * 2 \<le> ?x * ((2::real) ^ nl) powr (1 / 3)"
    using root by (intro mult_left_mono)
  with prod have x: "?x \<le> 2 ^ nl / 2" by simp
  have "real_of_int (chebyshev_a nl) \<le> ?x + 1 / 2"
    unfolding chebyshev_a_round round_def by linarith
  with x big show ?thesis by linarith
qed

lemma chebyshev_num_intervals_positive:
  assumes "3 \<le> nl"
  shows "1 \<le> chebyshev_num_intervals nl (chebyshev_a nl)"
proof -
  have a2: "2 \<le> chebyshev_a nl"
    using assms by (intro chebyshev_a_ge_2) simp
  then have apos: "0 < real_of_int (chebyshev_a nl)" by simp
  have "real_of_int (chebyshev_a nl) < real_of_int (2 ^ nl - 1)"
    using chebyshev_a_upper [OF assms] by simp
  then have "1 < real_of_int (2 ^ nl - 1) / real_of_int (chebyshev_a nl)"
    using apos by (simp add: less_divide_eq)
  then have "0 < ln (real_of_int (2 ^ nl - 1) / real_of_int (chebyshev_a nl))"
    by simp
  then have "0 < ln (real_of_int (2 ^ nl - 1) / real_of_int (chebyshev_a nl)) / ln 5"
    by simp
  then have "0 < \<lceil>ln (real_of_int (2 ^ nl - 1) / real_of_int (chebyshev_a nl)) / ln 5\<rceil>"
    by (simp only: zero_less_ceiling)
  then show ?thesis
    by (simp add: chebyshev_num_intervals_def)
qed

text \<open>
  Claim C8, as amended. On every run that returns a circuit, with \<open>nl\<close> the size of the
  eigenvalue register and \<open>kappa\<close> the condition bound: in the exact mode the circuit's ancilla
  count is the matrix circuit's; in the approximate mode the reciprocal circuit is
  \<open>PiecewiseChebyshev\<close> of the function \<open>arcsin(delta / x)\<close> with base point
  \<open>a = round((2^nl)^(2/3))\<close> (a tie never occurs, so the rounding mode is immaterial),
  \<open>m = ceil(log((2^nl - 1)/a) / log 5)\<close> intervals, breakpoints \<open>a 5^i\<close> for \<open>i < m\<close> followed by
  \<open>2^nl - 1\<close> when \<open>m \<ge> 1\<close>, which holds whenever \<open>nl \<ge> 3\<close> (no breakpoint at all when
  \<open>m \<le> 0\<close>), the degree \<open>min(nb, int(log(1 + 16.23 sqrt(log(r)^2 + (pi/2)^2) kappa
  (2 kappa - epsilon_r) / epsilon_r)))\<close> with \<open>r = 2 delta/a + sqrt(1 - (2 delta/a)^2)\<close>, and
  the circuit's ancilla count is the maximum of the matrix circuit's and the Chebyshev
  circuit's.
\<close>

theorem chebyshev_reciprocal:
  assumes vec: "vector_stage ext vector = Inr (Some (nb, vc))"
    and mat: "matrix_stage ext matrix (Some (nb, vc)) = Inr mc"
    and run: "construct_circuit ext s matrix vector neg_vals = (Inr qc, s', out)"
  shows "if exact_reciprocal s then num_ancillas qc = mc_num_ancillas mc
         else (\<exists>delta a m breakpoints r degree.
                 a = py_round (real (2 ^ reg_size (qregs qc ! 1)) powr (2 / 3))
               \<and> a = round (real (2 ^ reg_size (qregs qc ! 1)) powr (2 / 3))
               \<and> m = \<lceil>ln (real_of_int (2 ^ reg_size (qregs qc ! 1) - 1) / real_of_int a) / ln 5\<rceil>
               \<and> (3 \<le> reg_size (qregs qc ! 1) \<longrightarrow> 1 \<le> m)
               \<and> breakpoints = map (\<lambda>i. a * 5 ^ i) [0..<nat m]
                                 @ (if 1 \<le> m then [2 ^ reg_size (qregs qc ! 1) - 1] else [])
               \<and> r = 2 * delta / real_of_int a + sqrt (1 - (2 * delta / real_of_int a)\<^sup>2)
               \<and> degree = min (int nb)
                    (py_int (ln (1 + (1623 / 100 * sqrt ((ln r)\<^sup>2 + (pi / 2)\<^sup>2) * kappa_of mc
                                       * (2 * kappa_of mc - epsilon_r s)) / epsilon_r s)))
               \<and> fst (data qc ! 2)
                   = PiecewiseChebyshev (\<lambda>x. arcsin (delta / x)) degree breakpoints
                       (reg_size (qregs qc ! 1))
               \<and> num_ancillas qc
                   = max (mc_num_ancillas mc)
                       (chebyshev_num_ancillas ext degree breakpoints (reg_size (qregs qc ! 1))))"
proof -
  from run vec mat obtain nl delta mc' g ra na where st:
    "register_nl nb (kappa_of mc) neg_vals = Inr nl"
    "eig_stage s (set_tolerance s mc) nl neg_vals = (Inr (delta, mc'), s', out)"
    "reciprocal_stage ext s' mc' nb nl delta (kappa_of mc) neg_vals = Inr (g, ra, na)"
    "assemble s' vc mc' nb nl (g, ra, na) = Inr qc"
    by (rule construct_circuit_parts)
  have ex: "exact_reciprocal s' = exact_reciprocal s" and eps: "epsilon_r s' = epsilon_r s"
    by (rule eig_stage_solver [OF st(2)])+
  have anc: "mc_num_ancillas mc' = mc_num_ancillas mc"
    using eig_stage_ancillas [OF st(2)] by simp
  have nl: "reg_size (qregs qc ! 1) = nl"
    using assemble_qregs [OF st(4)] by simp
  have na: "num_ancillas qc = na"
    by (rule assemble_num_ancillas [OF st(4)])
  have d2: "fst (data qc ! 2) = g"
    using assemble_data(1) [OF st(4)] by simp
  show ?thesis
  proof (cases "exact_reciprocal s")
    case True
    with reciprocal_stage_gate [OF st(3)] ex anc na show ?thesis by simp
  next
    case False
    then have nex: "\<not> exact_reciprocal s'" using ex by simp
    let ?a = "chebyshev_a nl"
    let ?r = "chebyshev_r delta ?a"
    let ?deg = "chebyshev_degree s nb (kappa_of mc) ?r"
    let ?bps = "chebyshev_breakpoints nl ?a"
    note rs = reciprocal_stage_chebyshev [OF st(3) nex, unfolded degree_bound_solver [OF eps] anc]
    have nl1: "1 \<le> nl" by (rule register_nl_positive [OF st(1)])
    have dr: "0 \<le> delta" "delta < 1"
      using eig_stage_delta_range [OF st(2) nl1] by simp_all
    have r: "?r = 2 * delta / real_of_int ?a + sqrt (1 - (2 * delta / real_of_int ?a)\<^sup>2)"
      by (rule chebyshev_r_no_abs(1) [OF dr chebyshev_a_ge_2 [OF nl1]])
    have a: "?a = py_round (real (2 ^ nl) powr (2 / 3))"
      by (simp add: chebyshev_a_def)
    have a': "?a = round (real (2 ^ nl) powr (2 / 3))"
      using chebyshev_a_round [of nl] by simp
    have m: "chebyshev_num_intervals nl ?a
        = \<lceil>ln (real_of_int (2 ^ nl - 1) / real_of_int ?a) / ln 5\<rceil>"
      by (simp add: chebyshev_num_intervals_def)
    have m1: "3 \<le> nl \<longrightarrow> 1 \<le> chebyshev_num_intervals nl ?a"
      using chebyshev_num_intervals_positive by blast
    have b: "?bps = map (\<lambda>i. ?a * 5 ^ i) [0..<nat (chebyshev_num_intervals nl ?a)]
                     @ (if 1 \<le> chebyshev_num_intervals nl ?a then [2 ^ nl - 1] else [])"
      by (rule chebyshev_breakpoints_eq)
    have deg: "?deg = min (int nb)
        (py_int (ln (1 + (1623 / 100 * sqrt ((ln ?r)\<^sup>2 + (pi / 2)\<^sup>2) * kappa_of mc
                           * (2 * kappa_of mc - epsilon_r s)) / epsilon_r s)))"
      by (simp add: chebyshev_degree_def degree_bound_def)
    have g: "fst (data qc ! 2) = PiecewiseChebyshev (\<lambda>x. arcsin (delta / x)) ?deg ?bps nl"
      using rs(1) d2 by simp
    have n: "num_ancillas qc = max (mc_num_ancillas mc) (chebyshev_num_ancillas ext ?deg ?bps nl)"
      using rs(2,3) na by simp
    from a a' m m1 b r deg g n have
      "\<exists>delta a m breakpoints r degree.
                 a = py_round (real (2 ^ nl) powr (2 / 3))
               \<and> a = round (real (2 ^ nl) powr (2 / 3))
               \<and> m = \<lceil>ln (real_of_int (2 ^ nl - 1) / real_of_int a) / ln 5\<rceil>
               \<and> (3 \<le> nl \<longrightarrow> 1 \<le> m)
               \<and> breakpoints = map (\<lambda>i. a * 5 ^ i) [0..<nat m]
                                 @ (if 1 \<le> m then [2 ^ nl - 1] else [])
               \<and> r = 2 * delta / real_of_int a + sqrt (1 - (2 * delta / real_of_int a)\<^sup>2)
               \<and> degree = min (int nb)
                    (py_int (ln (1 + (1623 / 100 * sqrt ((ln r)\<^sup>2 + (pi / 2)\<^sup>2) * kappa_of mc
                                       * (2 * kappa_of mc - epsilon_r s)) / epsilon_r s)))
               \<and> fst (data qc ! 2)
                   = PiecewiseChebyshev (\<lambda>x. arcsin (delta / x)) degree breakpoints nl
               \<and> num_ancillas qc
                   = max (mc_num_ancillas mc) (chebyshev_num_ancillas ext degree breakpoints nl)"
      by (intro exI [of _ delta] exI [of _ ?a] exI [of _ "chebyshev_num_intervals nl ?a"]
          exI [of _ ?bps] exI [of _ ?r] exI [of _ ?deg] conjI)
    with False show ?thesis unfolding nl by (simp only: if_False)
  qed
qed

lemma chebyshev_a_3: "chebyshev_a 3 = 4"
proof -
  have "(8 :: real) = 2 powr 3" by simp
  then have "(8 :: real) powr (2 / 3) = (2 powr 3) powr (2 / 3)"
    by (simp only:)
  also have "\<dots> = 2 powr (3 * (2 / 3))"
    by (rule powr_powr)
  finally have "(8 :: real) powr (2 / 3) = 4" by simp
  then have "real (2 ^ 3) powr (2 / 3) = 4" by simp
  then show ?thesis
    unfolding chebyshev_a_def by (simp only:) (simp add: py_round_def)
qed

lemma chebyshev_a_2: "chebyshev_a 2 = 3"
proof -
  have "(16 :: real) = 4 powr 2" by simp
  then have "(16 :: real) powr (1 / 3) = (4 powr 2) powr (1 / 3)"
    by (simp only:)
  also have "\<dots> = 4 powr (2 * (1 / 3))"
    by (rule powr_powr)
  finally have e: "(4 :: real) powr (2 / 3) = 16 powr (1 / 3)" by simp
  have "((5 / 2) ^ 3 :: real) powr (1 / 3) < 16 powr (1 / 3)"
    by (rule powr_less_mono2) (simp_all add: power3_eq_cube)
  then have lo: "(5 / 2 :: real) < 16 powr (1 / 3)"
    by (simp only: cube_root [of "5 / 2"])
  have "(16 :: real) powr (1 / 3) < ((7 / 2) ^ 3) powr (1 / 3)"
    by (rule powr_less_mono2) (simp_all add: power3_eq_cube)
  then have hi: "(16 :: real) powr (1 / 3) < 7 / 2"
    using cube_root [of "7 / 2"] by simp
  have "py_round ((4 :: real) powr (2 / 3)) = 3"
    unfolding e using lo hi by (intro py_round_eq) simp_all
  then show ?thesis
    by (simp add: chebyshev_a_def)
qed

lemma chebyshev_num_intervals_3: "chebyshev_num_intervals 3 4 = 1"
proof -
  have "0 < ln (7 / 4 :: real)" by simp
  moreover have "ln (7 / 4 :: real) \<le> ln 5" by simp
  ultimately have "0 < ln (7 / 4 :: real) / ln 5" "ln (7 / 4 :: real) / ln 5 \<le> 1"
    by simp_all
  then have "\<lceil>ln (7 / 4 :: real) / ln 5\<rceil> = 1"
    by (intro ceiling_unique) simp_all
  then show ?thesis
    by (simp add: chebyshev_num_intervals_def)
qed

lemma chebyshev_num_intervals_2: "chebyshev_num_intervals 2 3 = 0"
  by (simp add: chebyshev_num_intervals_def)

lemma chebyshev_breakpoints_3: "chebyshev_breakpoints 3 4 = [4, 7]"
  by (simp add: chebyshev_breakpoints_eq chebyshev_num_intervals_3)

lemma chebyshev_breakpoints_2: "chebyshev_breakpoints 2 3 = []"
  by (simp add: chebyshev_breakpoints_eq chebyshev_num_intervals_2)

lemma sample_chebyshev_run:
  assumes nl: "register_nl 1 1 neg_vals = Inr nl"
  shows "\<exists>qc. construct_circuit sample_externals sample_chebyshev_solver
               (MCircuit (sample_matrix None None)) sample_vector neg_vals
             = (Inr qc, sample_chebyshev_solver, [ScalingNotice])
           \<and> fst (data qc ! 2)
               = PiecewiseChebyshev (\<lambda>x. arcsin (1 / 2 ^ nl / x))
                   (chebyshev_degree sample_chebyshev_solver 1 1
                      (chebyshev_r (1 / 2 ^ nl) (chebyshev_a nl)))
                   (chebyshev_breakpoints nl (chebyshev_a nl)) nl
           \<and> num_ancillas qc = 1"
proof -
  let ?s = "sample_chebyshev_solver"
  let ?mc = "sample_matrix None None"
  let ?vc = "UserGate \<lparr>uc_name = ''b'', uc_num_qubits = 1\<rparr>"
  have vec: "vector_stage sample_externals sample_vector = Inr (Some (1, ?vc))"
    by (rule sample_vector_stage)
  have mat: "matrix_stage sample_externals (MCircuit ?mc) (Some (1, ?vc)) = Inr ?mc"
    by (simp add: matrix_stage_def)
  have k: "kappa_of ?mc = 1" by (simp add: kappa_of_def sample_matrix_def)
  have nex: "\<not> exact_reciprocal ?s" by (simp add: sample_chebyshev_solver_def)
  have eps: "epsilon_r ?s = 1 / 300" by (simp add: sample_chebyshev_solver_def HHL_init_def)
  have an: "mc_num_ancillas ?mc = 0" by (simp add: sample_matrix_def)
  have "eigs_bounds (set_tolerance ?s ?mc) = None" by (simp add: sample_matrix_def)
  then have e: "eig_stage ?s (set_tolerance ?s ?mc) nl neg_vals
      = (Inr (1 / 2 ^ nl, set_tolerance ?s ?mc), ?s, [ScalingNotice])"
    by (rule eig_stage_none)
  have nl1: "1 \<le> nl" by (rule register_nl_positive [OF nl])
  have dr: "0 \<le> 1 / (2::real) ^ nl" "1 / (2::real) ^ nl < 1"
    using eig_stage_delta_range [OF e nl1] by simp_all
  have a2: "2 \<le> chebyshev_a nl" by (rule chebyshev_a_ge_2 [OF nl1])
  have rpos: "0 < chebyshev_r (1 / 2 ^ nl) (chebyshev_a nl)"
    by (rule chebyshev_r_no_abs(2) [OF dr a2])
  have db: "0 < degree_bound ?s 1 (chebyshev_r (1 / 2 ^ nl) (chebyshev_a nl))"
    by (rule degree_bound_pos) (simp_all add: eps)
  let ?g = "PiecewiseChebyshev (\<lambda>x. arcsin (1 / 2 ^ nl / x))
              (chebyshev_degree ?s 1 1 (chebyshev_r (1 / 2 ^ nl) (chebyshev_a nl)))
              (chebyshev_breakpoints nl (chebyshev_a nl)) nl"
  have r: "reciprocal_stage sample_externals ?s (set_tolerance ?s ?mc) 1 nl (1 / 2 ^ nl)
             (kappa_of ?mc) neg_vals = Inr (?g, 1, 1)"
    using nex a2 rpos db nl1
    by (simp add: reciprocal_stage_def Let_def k eps an sample_externals_def)
  obtain qc where qc: "assemble ?s ?vc (set_tolerance ?s ?mc) 1 nl (?g, 1, 1) = Inr qc"
    by (simp add: assemble_def Let_def)
  have run: "construct_circuit sample_externals ?s (MCircuit ?mc) sample_vector neg_vals
      = (Inr qc, ?s, [ScalingNotice])"
    using construct_circuit_run [OF vec mat _ e r] nl qc by (simp add: k)
  have "fst (data qc ! 2) = ?g"
    using assemble_data(1) [OF qc] by simp
  moreover have "num_ancillas qc = 1"
    by (rule assemble_num_ancillas [OF qc])
  ultimately show ?thesis using run by blast
qed

theorem chebyshev_reciprocal_witness:
  "\<exists>qc degree.
     construct_circuit sample_externals sample_chebyshev_solver
        (MCircuit (sample_matrix None None)) sample_vector True
       = (Inr qc, sample_chebyshev_solver, [ScalingNotice])
   \<and> fst (data qc ! 2) = PiecewiseChebyshev (\<lambda>x. arcsin (1 / 8 / x)) degree [4, 7] 3
   \<and> num_ancillas qc = 1"
proof -
  let ?s = "sample_chebyshev_solver"
  let ?mc = "sample_matrix None None"
  let ?vc = "UserGate \<lparr>uc_name = ''b'', uc_num_qubits = 1\<rparr>"
  have vec: "vector_stage sample_externals sample_vector = Inr (Some (1, ?vc))"
    by (rule sample_vector_stage)
  have mat: "matrix_stage sample_externals (MCircuit ?mc) (Some (1, ?vc)) = Inr ?mc"
    by (simp add: matrix_stage_def)
  have nex: "\<not> exact_reciprocal ?s" by (simp add: sample_chebyshev_solver_def)
  have nl: "register_nl 1 1 True = Inr 3"
    using register_nl_1_1 [of True] by simp
  from sample_chebyshev_run [OF nl] obtain qc where run:
    "construct_circuit sample_externals ?s (MCircuit ?mc) sample_vector True
       = (Inr qc, ?s, [ScalingNotice])"
    and g: "fst (data qc ! 2)
       = PiecewiseChebyshev (\<lambda>x. arcsin (1 / 2 ^ 3 / x))
           (chebyshev_degree ?s 1 1 (chebyshev_r (1 / 2 ^ 3) (chebyshev_a 3)))
           (chebyshev_breakpoints 3 (chebyshev_a 3)) 3"
    by blast
  have nl3: "reg_size (qregs qc ! 1) = 3"
    using construct_circuit_nl [OF run vec mat] nl by (simp add: kappa_of_def sample_matrix_def)
  from chebyshev_reciprocal [OF vec mat run] nex
  obtain delta a m breakpoints r degree where c:
    "a = py_round (real (2 ^ 3) powr (2 / 3))"
    "m = \<lceil>ln (real_of_int (2 ^ 3 - 1) / real_of_int a) / ln 5\<rceil>"
    "breakpoints = map (\<lambda>i. a * 5 ^ i) [0..<nat m] @ (if 1 \<le> m then [2 ^ 3 - 1] else [])"
    "fst (data qc ! 2) = PiecewiseChebyshev (\<lambda>x. arcsin (delta / x)) degree breakpoints 3"
    "num_ancillas qc
       = max (mc_num_ancillas ?mc) (chebyshev_num_ancillas sample_externals degree breakpoints 3)"
    unfolding nl3 by auto
  have a: "a = 4"
    using c(1) chebyshev_a_3 by (simp add: chebyshev_a_def)
  have m: "m = 1"
    using c(2) chebyshev_num_intervals_3 unfolding a by (simp add: chebyshev_num_intervals_def)
  have b: "breakpoints = [4, 7]"
    using c(3) unfolding a m by simp
  have anc: "num_ancillas qc = 1"
    using c(5) by (simp add: sample_matrix_def sample_externals_def)
  from c(4) g have "degree = chebyshev_degree ?s 1 1 (chebyshev_r (1 / 2 ^ 3) (chebyshev_a 3))"
    by simp
  with g b c(4) have "fst (data qc ! 2)
      = PiecewiseChebyshev (\<lambda>x. arcsin (1 / 8 / x)) degree [4, 7] 3"
    by (simp add: chebyshev_a_3 chebyshev_breakpoints_3)
  with run anc show ?thesis by blast
qed

text \<open>
  Claim C8 as stated fails when there is no interval: for a one-qubit vector, no condition
  bounds and \<open>neg_vals = False\<close> the eigenvalue register has \<open>nl = 2\<close> qubits, the base point is
  \<open>a = 3 = 2^nl - 1\<close>, the number of intervals is 0, the loop body never runs, and the
  breakpoint list handed to the Chebyshev circuit is empty: \<open>2^nl - 1\<close> is not appended.
\<close>

theorem chebyshev_no_interval_counterexample:
  "register_nl 1 1 False = Inr 2
   \<and> chebyshev_a 2 = 3
   \<and> chebyshev_num_intervals 2 (chebyshev_a 2) = 0
   \<and> chebyshev_breakpoints 2 (chebyshev_a 2) = []
   \<and> fst (data (projr (fst (construct_circuit sample_externals sample_chebyshev_solver
                               (MCircuit (sample_matrix None None)) sample_vector False))) ! 2)
       = PiecewiseChebyshev (\<lambda>x. arcsin (1 / 4 / x))
           (chebyshev_degree sample_chebyshev_solver 1 1 (chebyshev_r (1 / 4) 3)) [] 2"
proof -
  have nl: "register_nl 1 1 False = Inr 2"
    using register_nl_1_1 [of False] by simp
  from sample_chebyshev_run [OF nl] obtain qc where run:
    "construct_circuit sample_externals sample_chebyshev_solver
        (MCircuit (sample_matrix None None)) sample_vector False
       = (Inr qc, sample_chebyshev_solver, [ScalingNotice])"
    and g: "fst (data qc ! 2)
       = PiecewiseChebyshev (\<lambda>x. arcsin (1 / 2 ^ 2 / x))
           (chebyshev_degree sample_chebyshev_solver 1 1 (chebyshev_r (1 / 2 ^ 2) (chebyshev_a 2)))
           (chebyshev_breakpoints 2 (chebyshev_a 2)) 2"
    by blast
  have "fst (data (projr (fst (construct_circuit sample_externals sample_chebyshev_solver
                               (MCircuit (sample_matrix None None)) sample_vector False))) ! 2)
       = PiecewiseChebyshev (\<lambda>x. arcsin (1 / 4 / x))
           (chebyshev_degree sample_chebyshev_solver 1 1 (chebyshev_r (1 / 4) 3)) [] 2"
    using g by (simp add: run chebyshev_a_2 chebyshev_breakpoints_2)
  with nl show ?thesis
    by (simp add: chebyshev_a_2 chebyshev_num_intervals_2 chebyshev_breakpoints_2)
qed

end
